theory Spec2Isabelle
  imports Main "HOL-Library.Multiset"
begin

section \<open>JavaScript values\<close>

text \<open>
  The values the helpers of \<^verbatim>\<open>omega.js\<close> branch on. A primitive string and a
  \<^verbatim>\<open>String\<close> wrapper object are kept apart, because \<^verbatim>\<open>_isString\<close> tests
  for both and because a wrapper object is truthy even when it wraps the empty string.
  DOM nodes and plain objects are references (a number names the object).
\<close>

datatype jsval =
    JUndefined
  | JNull
  | JBoolean bool
  | JNumber int
  | JString string
  | JStringObject string
  | JDomNode nat
  | JPlainObject nat

text \<open>JavaScript's \<^verbatim>\<open>ToBoolean\<close>, as used by \<^verbatim>\<open>if (x)\<close> and \<^verbatim>\<open>!x\<close>.\<close>

fun truthy :: "jsval \<Rightarrow> bool" where
  "truthy JUndefined = False"
| "truthy JNull = False"
| "truthy (JBoolean b) = b"
| "truthy (JNumber n) = (n \<noteq> 0)"
| "truthy (JString s) = (s \<noteq> [])"
| "truthy (JStringObject s) = True"
| "truthy (JDomNode n) = True"
| "truthy (JPlainObject n) = True"

text \<open>\<^verbatim>\<open>_isNullOrUndefined\<close>: \<^verbatim>\<open>null === obj || undefined === obj\<close>.\<close>

definition isNullOrUndefined :: "jsval \<Rightarrow> bool" where
  "isNullOrUndefined obj = (JNull = obj \<or> JUndefined = obj)"

text \<open>
  \<^verbatim>\<open>obj.constructor === String\<close> holds of a primitive string and of a wrapper object,
  \<^verbatim>\<open>obj instanceof String\<close> of a wrapper object only.
\<close>

fun constructor_is_String :: "jsval \<Rightarrow> bool" where
  "constructor_is_String (JString s) = True"
| "constructor_is_String (JStringObject s) = True"
| "constructor_is_String v = False"

fun instanceof_String :: "jsval \<Rightarrow> bool" where
  "instanceof_String (JStringObject s) = True"
| "instanceof_String v = False"

definition isString :: "jsval \<Rightarrow> bool" where
  "isString obj =
     (if isNullOrUndefined obj then False
      else (constructor_is_String obj \<or> instanceof_String obj))"

text \<open>The characters of a string value, as the platform reads them (\<^verbatim>\<open>ToString\<close>).\<close>

fun string_of :: "jsval \<Rightarrow> string" where
  "string_of (JString s) = s"
| "string_of (JStringObject s) = s"
| "string_of v = []"


section \<open>The readiness signal \<^verbatim>\<open>onDomReady\<close>\<close>

text \<open>
  A callback is a function of the caller. What matters of it here is which function it is,
  which callbacks it passes to \<^verbatim>\<open>onDomReady\<close> itself while it runs, and whether it
  ends by throwing.
\<close>

datatype callback = Callback (cb_id: nat) (cb_registers: "callback list") (cb_throws: bool)

fun cb_weight :: "callback \<Rightarrow> nat" where
  "cb_weight (Callback i rs t) = Suc (sum_list (map cb_weight rs))"

datatype document_readyState = Loading | Interactive | Complete

text \<open>
  The state: the flag \<^verbatim>\<open>_domIsReady\<close>; the array \<^verbatim>\<open>_domReadyCallbacks\<close>
  (\<open>None\<close> once it is \<^verbatim>\<open>undefined\<close>); whether \<^verbatim>\<open>_onDomReadyHandler\<close> is
  registered for \<^verbatim>\<open>DOMContentLoaded\<close>; the callbacks handed to
  \<^verbatim>\<open>setTimeout(callback, 0)\<close> that have not run yet, oldest first; and the callbacks
  that have been invoked so far, in order.
\<close>

record ready_state =
  domIsReady :: bool
  domReadyCallbacks :: "callback list option"
  listening :: bool
  timers :: "callback list"
  invoked :: "callback list"

text \<open>A call either returns or throws; the state it leaves behind stays in either case.\<close>

datatype 'a outcome = Returned 'a | Threw 'a

fun state_of :: "'a outcome \<Rightarrow> 'a" where
  "state_of (Returned s) = s"
| "state_of (Threw s) = s"

text \<open>Loading the script (lines 32 to 45 of the source).\<close>

definition load_script :: "document_readyState \<Rightarrow> ready_state" where
  "load_script readyState =
     (let s = \<lparr>domIsReady = (Interactive = readyState \<or> Complete = readyState),
               domReadyCallbacks = Some [], listening = False, timers = [], invoked = []\<rparr>
      in if \<not> domIsReady s then s\<lparr>listening := True\<rparr> else s)"

text \<open>
  \<^verbatim>\<open>_onDomReady(callback)\<close>. \<^verbatim>\<open>push\<close> on \<^verbatim>\<open>undefined\<close> would be a
  \<^verbatim>\<open>TypeError\<close>.
\<close>

definition onDomReady :: "callback \<Rightarrow> ready_state \<Rightarrow> ready_state outcome" where
  "onDomReady callback s =
     (if \<not> domIsReady s then
        (case domReadyCallbacks s of
           None \<Rightarrow> Threw s
         | Some q \<Rightarrow> Returned (s\<lparr>domReadyCallbacks := Some (q @ [callback])\<rparr>))
      else Returned (s\<lparr>timers := timers s @ [callback]\<rparr>))"

text \<open>
  Running a callback: it is recorded as invoked, makes its own calls of
  \<^verbatim>\<open>onDomReady\<close> one after the other, and then returns or throws.
\<close>

fun register_all :: "callback list \<Rightarrow> ready_state \<Rightarrow> ready_state outcome" where
  "register_all [] s = Returned s"
| "register_all (r # rs) s =
     (case onDomReady r s of Threw s' \<Rightarrow> Threw s' | Returned s' \<Rightarrow> register_all rs s')"

definition invoke :: "callback \<Rightarrow> ready_state \<Rightarrow> ready_state outcome" where
  "invoke cb s =
     (case register_all (cb_registers cb) (s\<lparr>invoked := invoked s @ [cb]\<rparr>) of
        Threw s' \<Rightarrow> Threw s'
      | Returned s' \<Rightarrow> if cb_throws cb then Threw s' else Returned s')"

text \<open>
  The loop \<^verbatim>\<open>for (var c = 0; c < _domReadyCallbacks.length; ++c) { _domReadyCallbacks[c](); }\<close>.
  The length is read again in every round. A callback that throws ends the loop and the
  handler.
\<close>

function handler_loop :: "nat \<Rightarrow> ready_state \<Rightarrow> ready_state outcome" where
  "handler_loop c s =
     (case domReadyCallbacks s of
        None \<Rightarrow> Threw s
      | Some q \<Rightarrow>
          if c < length q then
            (case invoke (q ! c) s of
               Threw s' \<Rightarrow> Threw s'
             | Returned s' \<Rightarrow> handler_loop (Suc c) s')
          else Returned s)"
  by pat_completeness auto
termination
proof (relation "measure (\<lambda>(c, s). case domReadyCallbacks s of
    None \<Rightarrow> 0 | Some q \<Rightarrow> sum_list (map cb_weight (drop c q)))")
  show "wf (measure (\<lambda>(c, s). case domReadyCallbacks s of
    None \<Rightarrow> 0 | Some q \<Rightarrow> sum_list (map cb_weight (drop c q))))"
    by simp
next
  fix c :: nat and s s' :: ready_state and q
  assume q: "domReadyCallbacks s = Some q" and c: "c < length q"
    and i: "invoke (q ! c) s = Returned s'"
  let ?ext = "if domIsReady s then [] else cb_registers (q ! c)"
  have registered: "domReadyCallbacks t' = Some (r @ (if domIsReady t then [] else rs))"
    if "register_all rs t = Returned t'" and "domReadyCallbacks t = Some r" for rs t t' r
    using that
    by (induction rs arbitrary: t r) (auto simp: onDomReady_def split: if_splits outcome.splits)
  have q': "domReadyCallbacks s' = Some (q @ ?ext)"
    using i q registered [of "cb_registers (q ! c)" "s\<lparr>invoked := invoked s @ [q ! c]\<rparr>" s' q]
    by (auto simp: invoke_def split: outcome.splits if_splits)
  have "sum_list (map cb_weight (cb_registers (q ! c))) < cb_weight (q ! c)"
    by (cases "q ! c") simp
  then have "sum_list (map cb_weight ?ext) < cb_weight (q ! c)"
    by simp
  moreover have "drop c q = q ! c # drop (Suc c) q"
    using c by (simp add: Cons_nth_drop_Suc)
  ultimately have "sum_list (map cb_weight (drop (Suc c) (q @ ?ext)))
      < sum_list (map cb_weight (drop c q))"
    using c by simp
  with q q' show "((Suc c, s'), (c, s)) \<in> measure (\<lambda>(c, s). case domReadyCallbacks s of
      None \<Rightarrow> 0 | Some q \<Rightarrow> sum_list (map cb_weight (drop c q)))"
    by simp
qed

declare handler_loop.simps [simp del]

text \<open>\<^verbatim>\<open>_onDomReadyHandler()\<close>.\<close>

definition onDomReadyHandler :: "ready_state \<Rightarrow> ready_state outcome" where
  "onDomReadyHandler s0 =
     (let s = s0\<lparr>domIsReady := True\<rparr>;
          s = s\<lparr>listening := False\<rparr>
      in case handler_loop 0 s of
           Threw s' \<Rightarrow> Threw s'
         | Returned s' \<Rightarrow> Returned (s'\<lparr>domReadyCallbacks := None\<rparr>))"

text \<open>
  What happens on the page: a script calls \<^verbatim>\<open>onDomReady\<close>, the browser fires
  \<^verbatim>\<open>DOMContentLoaded\<close> (which runs the handler if it is registered), or the oldest
  pending timeout runs. An exception that leaves a handler or a timeout is reported by the
  browser and the page goes on.
\<close>

datatype event = Register callback | DOMContentLoaded | TimerFires

fun step :: "event \<Rightarrow> ready_state \<Rightarrow> ready_state" where
  "step (Register cb) s = state_of (onDomReady cb s)"
| "step DOMContentLoaded s = (if listening s then state_of (onDomReadyHandler s) else s)"
| "step TimerFires s =
     (case timers s of
        [] \<Rightarrow> s
      | cb # rest \<Rightarrow> state_of (invoke cb (s\<lparr>timers := rest\<rparr>)))"

definition run :: "event list \<Rightarrow> ready_state \<Rightarrow> ready_state" where
  "run evs s = fold step evs s"

text \<open>The callbacks the scripts of the page pass to \<^verbatim>\<open>onDomReady\<close> in a run.\<close>

fun registrations :: "event list \<Rightarrow> callback list" where
  "registrations [] = []"
| "registrations (Register cb # evs) = cb # registrations evs"
| "registrations (e # evs) = registrations evs"

text \<open>
  The part of a queue that the loop of the handler gets to: the callbacks up to and
  including the first one that throws, or all of them when none throws.
\<close>

fun reached :: "callback list \<Rightarrow> callback list" where
  "reached [] = []"
| "reached (cb # cbs) = (if cb_throws cb then [cb] else cb # reached cbs)"

text \<open>
  A page that is still loading when the script is loaded: the callbacks \<open>pre\<close> are
  registered, then \<^verbatim>\<open>DOMContentLoaded\<close> fires, then the events \<open>rest\<close> happen.
\<close>

definition scenario :: "callback list \<Rightarrow> event list \<Rightarrow> ready_state" where
  "scenario pre rest = run (map Register pre @ [DOMContentLoaded] @ rest) (load_script Loading)"

text \<open>
  Three callbacks: one that throws, one that only returns, and one that registers the
  second while it runs.
\<close>

definition cb_throwing :: callback where "cb_throwing = Callback 1 [] True"
definition cb_plain :: callback where "cb_plain = Callback 2 [] False"
definition cb_nested :: callback where "cb_nested = Callback 3 [cb_plain] False"


section \<open>The ancestor search \<^verbatim>\<open>parent\<close>\<close>

text \<open>
  \<^verbatim>\<open>_parent\<close> only reads: it compares references, follows \<^verbatim>\<open>parentNode\<close> and calls
  \<^verbatim>\<open>matches\<close>. A node is therefore modelled together with the chain of its
  ancestors: its identity, its kind and its parent (\<open>None\<close> for \<^verbatim>\<open>null\<close> or
  \<^verbatim>\<open>undefined\<close>). \<^verbatim>\<open>window\<close> is not a DOM node, but it is a value the code
  compares the start with, so it has a kind of its own.
\<close>

datatype node_kind = WindowObject | DocumentNode | ElementNode | TextNode | DocumentFragmentNode

datatype node = Node (nid: nat) (kind: node_kind) (parentNode: "node option")

text \<open>
  What \<^verbatim>\<open>_parent\<close> can throw: its own two \<^verbatim>\<open>Error\<close>s, the \<^verbatim>\<open>TypeError\<close> of
  calling \<^verbatim>\<open>p.matches\<close> on a value that has no such method (only elements have it),
  and the \<^verbatim>\<open>SyntaxError\<close> of \<^verbatim>\<open>matches\<close> on a selector that does not parse.
\<close>

datatype error = ArgumentsMissing | InvalidNode | TypeError | SyntaxError

text \<open>
  The references captured when the script is loaded (\<^verbatim>\<open>_win\<close>, \<^verbatim>\<open>_doc\<close>,
  \<^verbatim>\<open>_html\<close>, \<^verbatim>\<open>_body\<close>; \<^verbatim>\<open>document.body\<close> is \<^verbatim>\<open>null\<close> while the
  body has not been parsed), and the platform's selector engine.
\<close>

record page =
  win :: node
  doc :: node
  html :: node
  body :: "node option"
  selector_valid :: "string \<Rightarrow> bool"
  element_matches :: "node \<Rightarrow> string \<Rightarrow> bool"

text \<open>The call \<^verbatim>\<open>p.matches(selector)\<close>.\<close>

definition matches :: "page \<Rightarrow> node \<Rightarrow> string \<Rightarrow> error + bool" where
  "matches pg p selector =
     (if kind p \<noteq> ElementNode then Inl TypeError
      else if \<not> selector_valid pg selector then Inl SyntaxError
      else Inr (element_matches pg p selector))"

text \<open>
  The loop \<^verbatim>\<open>while(!!p && p !== _body) { if(p.matches(selector)) return p; p = p.parentNode; }\<close>
  followed by \<^verbatim>\<open>return undefined\<close>.
\<close>

fun parent_loop :: "page \<Rightarrow> string \<Rightarrow> node option \<Rightarrow> error + node option" where
  "parent_loop pg selector None = Inr None"
| "parent_loop pg selector (Some (Node i k up)) =
     (if Some (Node i k up) = body pg then Inr None
      else (case matches pg (Node i k up) selector of
              Inl e \<Rightarrow> Inl e
            | Inr True \<Rightarrow> Inr (Some (Node i k up))
            | Inr False \<Rightarrow> parent_loop pg selector up))"

text \<open>
  \<^verbatim>\<open>_parent(node, selector, includeSelf)\<close>. A missing argument is \<open>None\<close>; the empty
  selector is falsy as well.
\<close>

definition parent :: "page \<Rightarrow> node option \<Rightarrow> string option \<Rightarrow> bool \<Rightarrow> error + node option" where
  "parent pg node selector includeSelf =
     (case node of
        None \<Rightarrow> Inl ArgumentsMissing
      | Some n \<Rightarrow>
          (case selector of
             None \<Rightarrow> Inl ArgumentsMissing
           | Some sel \<Rightarrow>
               if sel = [] then Inl ArgumentsMissing
               else if n = win pg \<or> n = doc pg \<or> n = html pg \<or> Some n = body pg
               then Inl InvalidNode
               else parent_loop pg sel (if includeSelf then Some n else parentNode n)))"



text \<open>The two conditions under which \<^verbatim>\<open>_parent\<close> throws an error of its own.\<close>

definition arguments_missing :: "node option \<Rightarrow> string option \<Rightarrow> bool" where
  "arguments_missing node selector = (node = None \<or> selector = None \<or> selector = Some [])"

definition disallowed_start :: "page \<Rightarrow> node option \<Rightarrow> bool" where
  "disallowed_start pg node =
     (node = Some (win pg) \<or> node = Some (doc pg) \<or> node = Some (html pg)
      \<or> (node \<noteq> None \<and> node = body pg))"

text \<open>
  A small page: \<^verbatim>\<open>html\<close> with \<^verbatim>\<open>head\<close> and \<^verbatim>\<open>body\<close>, a \<^verbatim>\<open>div\<close> in the body and
  a \<^verbatim>\<open>span\<close> in the \<^verbatim>\<open>div\<close>. Each element matches its own tag name as a selector,
  and \<^verbatim>\<open>[\<close> is a selector that does not parse.
\<close>

definition window_node :: node where "window_node = Node 0 WindowObject None"
definition document_node :: node where "document_node = Node 1 DocumentNode None"
definition html_node :: node where "html_node = Node 2 ElementNode (Some document_node)"
definition head_node :: node where "head_node = Node 3 ElementNode (Some html_node)"
definition body_node :: node where "body_node = Node 4 ElementNode (Some html_node)"
definition div_node :: node where "div_node = Node 5 ElementNode (Some body_node)"
definition span_node :: node where "span_node = Node 6 ElementNode (Some div_node)"

definition example_page :: page where
  "example_page =
     \<lparr>win = window_node, doc = document_node, html = html_node, body = Some body_node,
      selector_valid = (\<lambda>s. s \<noteq> ''[''),
      element_matches = (\<lambda>n s. (s = ''html'' \<and> nid n = 2) \<or> (s = ''head'' \<and> nid n = 3)
         \<or> (s = ''body'' \<and> nid n = 4) \<or> (s = ''div'' \<and> nid n = 5)
         \<or> (s = ''span'' \<and> nid n = 6))\<rparr>"

text \<open>
  The same document, with the script loaded in the \<^verbatim>\<open>head\<close>, before the parser has
  reached the body: \<^verbatim>\<open>document.body\<close> is \<^verbatim>\<open>null\<close> at that time, and \<^verbatim>\<open>_body\<close>
  stays \<^verbatim>\<open>null\<close>.
\<close>

definition head_loaded_page :: page where
  "head_loaded_page = example_page\<lparr>body := None\<rparr>"


section \<open>Fragment construction: \<^verbatim>\<open>frag\<close> and \<^verbatim>\<open>parseOne\<close>\<close>

text \<open>
  \<^verbatim>\<open>_frag\<close> builds and moves subtrees, so here a node is modelled downward: its
  identity, its kind, its tag name or text, its children in order, and, for a
  \<^verbatim>\<open>template\<close> element, the document fragment held in its \<^verbatim>\<open>content\<close> property
  (\<open>None\<close> on every other node).
\<close>

datatype dom_tree =
  DomTree (ident: nat) (tkind: node_kind) (label: string)
    (childNodes: "dom_tree list") (content: "dom_tree option")

text \<open>
  What the HTML parser produces and what a deep clone preserves: a tree without
  identities.
\<close>

datatype markup =
  Markup (mkind: node_kind) (mlabel: string) (mchildren: "markup list")
    (mcontent: "markup option")

fun markup_of :: "dom_tree \<Rightarrow> markup" where
  "markup_of (DomTree i k l cs tc) = Markup k l (map markup_of cs) (map_option markup_of tc)"

text \<open>Creating the nodes of a piece of markup: every node gets the next unused identity.\<close>

fun build :: "nat \<Rightarrow> markup \<Rightarrow> dom_tree \<times> nat"
  and build_list :: "nat \<Rightarrow> markup list \<Rightarrow> dom_tree list \<times> nat"
  and build_option :: "nat \<Rightarrow> markup option \<Rightarrow> dom_tree option \<times> nat" where
  "build n (Markup k l cs tc) =
     (let (cs', n1) = build_list (Suc n) cs;
          (tc', n2) = build_option n1 tc
      in (DomTree n k l cs' tc', n2))"
| "build_list n [] = ([], n)"
| "build_list n (m # ms) =
     (let (t, n1) = build n m;
          (ts, n2) = build_list n1 ms
      in (t # ts, n2))"
| "build_option n None = (None, n)"
| "build_option n (Some m) = (let (t, n1) = build n m in (Some t, n1))"

text \<open>The identities of a subtree.\<close>

fun idents :: "dom_tree \<Rightarrow> nat set" where
  "idents (DomTree i k l cs tc) = insert i (\<Union>(idents ` set cs) \<union> \<Union>(idents ` set_option tc))"

text \<open>
  The nodes that exist outside the call: the roots are the document and the detached
  trees; \<open>next_id\<close> is the first identity not yet in use.
\<close>

record dom =
  roots :: "dom_tree list"
  next_id :: nat

text \<open>
  Following a reference to a node, and taking a node out of the place where it is. Both
  go through the children of every node and through the children of the content fragment
  of every template. The content fragment itself is not given out for a reference: it is
  no element, and \<^verbatim>\<open>_frag\<close> treats a node that is no element like a value that is no
  node at all.
\<close>

fun find_node :: "nat \<Rightarrow> dom_tree list \<Rightarrow> dom_tree option" where
  "find_node i [] = None"
| "find_node i (DomTree j k l cs None # rest) =
     (if j = i then Some (DomTree j k l cs None)
      else (case find_node i cs of Some t \<Rightarrow> Some t | None \<Rightarrow> find_node i rest))"
| "find_node i (DomTree j k l cs (Some (DomTree j' k' l' cs' tc')) # rest) =
     (if j = i then Some (DomTree j k l cs (Some (DomTree j' k' l' cs' tc')))
      else (case find_node i cs of
              Some t \<Rightarrow> Some t
            | None \<Rightarrow>
                (case find_node i cs' of Some t \<Rightarrow> Some t | None \<Rightarrow> find_node i rest)))"

fun remove_node :: "nat \<Rightarrow> dom_tree list \<Rightarrow> dom_tree list" where
  "remove_node i [] = []"
| "remove_node i (DomTree j k l cs None # rest) =
     (if j = i then remove_node i rest
      else DomTree j k l (remove_node i cs) None # remove_node i rest)"
| "remove_node i (DomTree j k l cs (Some (DomTree j' k' l' cs' tc')) # rest) =
     (if j = i then remove_node i rest
      else DomTree j k l (remove_node i cs) (Some (DomTree j' k' l' (remove_node i cs') tc'))
             # remove_node i rest)"

definition set_childNodes :: "dom_tree list \<Rightarrow> dom_tree \<Rightarrow> dom_tree" where
  "set_childNodes cs t = DomTree (ident t) (tkind t) (label t) cs (content t)"

text \<open>\<^verbatim>\<open>document.createDocumentFragment()\<close> and \<^verbatim>\<open>_makeEl(tagName)\<close>.\<close>

definition createDocumentFragment :: "dom \<Rightarrow> dom_tree \<times> dom" where
  "createDocumentFragment s =
     (DomTree (next_id s) DocumentFragmentNode [] [] None, s\<lparr>next_id := Suc (next_id s)\<rparr>)"

definition makeEl :: "string \<Rightarrow> dom \<Rightarrow> dom_tree \<times> dom" where
  "makeEl tagName s =
     (DomTree (next_id s) ElementNode tagName [] None, s\<lparr>next_id := Suc (next_id s)\<rparr>)"

text \<open>
  \<^verbatim>\<open>el.innerHTML = text\<close>: the children of \<open>el\<close> become the nodes the platform's
  parser (the parameter \<open>parse_html\<close>) makes of the text.
\<close>

definition set_innerHTML ::
  "(string \<Rightarrow> markup list) \<Rightarrow> string \<Rightarrow> dom_tree \<Rightarrow> dom \<Rightarrow> dom_tree \<times> dom" where
  "set_innerHTML parse_html text el s =
     (let (cs, n) = build_list (next_id s) (parse_html text)
      in (set_childNodes cs el, s\<lparr>next_id := n\<rparr>))"

definition firstChild :: "dom_tree \<Rightarrow> dom_tree option" where
  "firstChild t = (case childNodes t of [] \<Rightarrow> None | c # cs \<Rightarrow> Some c)"

text \<open>
  \<^verbatim>\<open>p.appendChild(child)\<close> on the side of the new parent: a document fragment is
  replaced by its children, any other node is inserted itself. Taking the child out of
  its old parent is \<open>removeChild\<close> for a local node and \<open>remove_node\<close> for a node of
  the document.
\<close>

definition inserted_nodes :: "dom_tree \<Rightarrow> dom_tree list" where
  "inserted_nodes child =
     (if tkind child = DocumentFragmentNode then childNodes child else [child])"

definition appendChild :: "dom_tree \<Rightarrow> dom_tree \<Rightarrow> dom_tree" where
  "appendChild p child = set_childNodes (childNodes p @ inserted_nodes child) p"

definition removeChild :: "dom_tree \<Rightarrow> dom_tree \<Rightarrow> dom_tree" where
  "removeChild p child = set_childNodes (remove1 child (childNodes p)) p"

text \<open>
  The loop \<^verbatim>\<open>while((el = tmp.firstChild)) { frag.appendChild(el); }\<close>. Both nodes are
  local to the call and distinct, so the loop is a function of the two nodes.
\<close>

function move_children :: "dom_tree \<Rightarrow> dom_tree \<Rightarrow> dom_tree \<times> dom_tree" where
  "move_children tmp frag =
     (case firstChild tmp of
        None \<Rightarrow> (tmp, frag)
      | Some el \<Rightarrow> move_children (removeChild tmp el) (appendChild frag el))"
  by pat_completeness auto
termination
  by (relation "measure (\<lambda>(tmp, frag). length (childNodes tmp))")
    (auto simp: firstChild_def removeChild_def set_childNodes_def split: list.splits)

declare move_children.simps [simp del]

text \<open>\<^verbatim>\<open>node.cloneNode(true)\<close>: the same markup, made of new nodes.\<close>

definition cloneNode :: "dom_tree \<Rightarrow> dom \<Rightarrow> dom_tree \<times> dom" where
  "cloneNode t s = (let (c, n) = build (next_id s) (markup_of t) in (c, s\<lparr>next_id := n\<rparr>))"

definition node_of :: "dom \<Rightarrow> jsval \<Rightarrow> dom_tree option" where
  "node_of s v = (case v of JDomNode i \<Rightarrow> find_node i (roots s) | _ \<Rightarrow> None)"

definition instanceof_Element :: "dom_tree \<Rightarrow> bool" where
  "instanceof_Element t = (tkind t = ElementNode)"

text \<open>A template element is an element that has a \<^verbatim>\<open>content\<close> fragment.\<close>

definition instanceof_HTMLTemplateElement :: "dom_tree \<Rightarrow> bool" where
  "instanceof_HTMLTemplateElement t = (tkind t = ElementNode \<and> content t \<noteq> None)"

text \<open>
  \<^verbatim>\<open>_frag(content, cloneEls)\<close>. The fragment and the temporary \<^verbatim>\<open>div\<close> are new nodes
  that nothing else refers to; they are local values, and the fragment is returned with
  the state of the other nodes. A value that is no reference to a node is neither a
  template nor an element.
\<close>

definition frag ::
  "(string \<Rightarrow> markup list) \<Rightarrow> dom \<Rightarrow> jsval \<Rightarrow> bool \<Rightarrow> dom_tree \<times> dom" where
  "frag parse_html s0 content_arg cloneEls =
     (let (frag, s) = createDocumentFragment s0
      in if \<not> truthy content_arg then (frag, s)
         else if isString content_arg then
           (let (tmp, s) = makeEl ''div'' s;
                (tmp, s) = set_innerHTML parse_html (string_of content_arg) tmp s;
                (tmp, frag) = move_children tmp frag
            in (frag, s))
         else
           (case node_of s content_arg of
              None \<Rightarrow> (frag, s)
            | Some el \<Rightarrow>
                if instanceof_HTMLTemplateElement el then
                  (case content el of
                     None \<Rightarrow> (frag, s)
                   | Some template_content \<Rightarrow>
                       (let (c, s) = cloneNode template_content s in (appendChild frag c, s)))
                else if instanceof_Element el then
                  (if cloneEls then
                     (let (c, s) = cloneNode el s in (appendChild frag c, s))
                   else (appendChild frag el, s\<lparr>roots := remove_node (ident el) (roots s)\<rparr>))
                else (frag, s)))"

text \<open>
  \<^verbatim>\<open>_parseOne(content, cloneEls)\<close>: \<^verbatim>\<open>frag.firstChild\<close> when the fragment has one
  child, the fragment otherwise.
\<close>

definition parseOne ::
  "(string \<Rightarrow> markup list) \<Rightarrow> dom \<Rightarrow> jsval \<Rightarrow> bool \<Rightarrow> dom_tree option \<times> dom" where
  "parseOne parse_html s0 content_arg cloneEls =
     (let (frag, s) = frag parse_html s0 content_arg cloneEls
      in if length (childNodes frag) = 1 then (firstChild frag, s) else (Some frag, s))"

text \<open>
  An example: a parser that knows two pieces of markup, and a document whose body holds a
  \<^verbatim>\<open>div\<close> with a text and a \<^verbatim>\<open>template\<close> with two \<^verbatim>\<open>li\<close> elements.
\<close>

definition example_parse_html :: "string \<Rightarrow> markup list" where
  "example_parse_html text =
     (if text = ''<p>x</p><b></b>''
      then [Markup ElementNode ''p'' [Markup TextNode ''x'' [] None] None,
            Markup ElementNode ''b'' [] None]
      else if text = ''<i></i>'' then [Markup ElementNode ''i'' [] None]
      else [Markup TextNode text [] None])"

definition example_template_content :: dom_tree where
  "example_template_content =
     DomTree 8 DocumentFragmentNode []
       [DomTree 9 ElementNode ''li'' [] None, DomTree 10 ElementNode ''li'' [] None] None"

definition example_template :: dom_tree where
  "example_template = DomTree 7 ElementNode ''template'' [] (Some example_template_content)"

definition example_div :: dom_tree where
  "example_div = DomTree 5 ElementNode ''div'' [DomTree 6 TextNode ''hi'' [] None] None"

definition example_dom :: dom where
  "example_dom =
     \<lparr>roots =
        [DomTree 1 DocumentNode []
           [DomTree 2 ElementNode ''html''
              [DomTree 3 ElementNode ''head'' [] None,
               DomTree 4 ElementNode ''body'' [example_div, example_template] None] None] None],
      next_id = 11\<rparr>"


section \<open>The defaults merge \<^verbatim>\<open>addDefaults\<close>\<close>

text \<open>
  An ordinary object: its identity, its own properties in the order in which
  \<^verbatim>\<open>Object.keys\<close> enumerates them (the first entry of a key is the property), its
  prototype, and whether it is extensible (\<^verbatim>\<open>Object.preventExtensions\<close>,
  \<^verbatim>\<open>Object.seal\<close> and \<^verbatim>\<open>Object.freeze\<close> make it non-extensible). Properties are data
  properties holding a value and the attributes \<^verbatim>\<open>enumerable\<close> and \<^verbatim>\<open>writable\<close>.
  Only the target of \<^verbatim>\<open>_addDefaults\<close> is written to and only its own properties change,
  so the prototype chain is kept as a value inside the object.
\<close>

record property =
  prop_value :: jsval
  enumerable :: bool
  writable :: bool

datatype jsobject =
  JSObject (oid: nat) (own: "(string \<times> property) list") (proto: "jsobject option")
    (extensible: bool)

text \<open>The property a key resolves to: an own one, or the first one along the prototype chain.\<close>

fun find_property :: "string \<Rightarrow> jsobject \<Rightarrow> property option" where
  "find_property key (JSObject i ps pr ext) =
     (case map_of ps key of
        Some p \<Rightarrow> Some p
      | None \<Rightarrow> (case pr of None \<Rightarrow> None | Some q \<Rightarrow> find_property key q))"

text \<open>\<^verbatim>\<open>key in obj\<close>.\<close>

definition has_property :: "string \<Rightarrow> jsobject \<Rightarrow> bool" where
  "has_property key ob = (find_property key ob \<noteq> None)"

text \<open>\<^verbatim>\<open>obj[key]\<close> as a read: \<^verbatim>\<open>undefined\<close> when the key is nowhere on the chain.\<close>

definition get :: "string \<Rightarrow> jsobject \<Rightarrow> jsval" where
  "get key ob = (case find_property key ob of Some p \<Rightarrow> prop_value p | None \<Rightarrow> JUndefined)"

text \<open>
  The keys that are array indices: the decimal numerals, without leading zeros, of the
  numbers below \<open>2\<^sup>3\<^sup>2 - 1\<close>. An object enumerates these keys first, in ascending
  order, and the other keys after them in the order of their creation.
\<close>

definition is_digit :: "char \<Rightarrow> bool" where
  "is_digit c = (c \<in> set ''0123456789'')"

definition digit_value :: "char \<Rightarrow> nat" where
  "digit_value c = of_char c - 48"

definition index_value :: "string \<Rightarrow> nat" where
  "index_value s = foldl (\<lambda>n c. 10 * n + digit_value c) 0 s"

definition is_array_index :: "string \<Rightarrow> bool" where
  "is_array_index s =
     (s \<noteq> [] \<and> list_all is_digit s \<and> (s = ''0'' \<or> take 1 s \<noteq> ''0'')
      \<and> index_value s < 4294967295)"

fun insert_index ::
  "nat \<Rightarrow> string \<times> property \<Rightarrow> (string \<times> property) list \<Rightarrow> (string \<times> property) list" where
  "insert_index n kp [] = [kp]"
| "insert_index n kp ((k', p') # ps) =
     (if is_array_index k' \<and> index_value k' < n then (k', p') # insert_index n kp ps
      else kp # (k', p') # ps)"

definition insert_own ::
  "string \<Rightarrow> property \<Rightarrow> (string \<times> property) list \<Rightarrow> (string \<times> property) list" where
  "insert_own key p ps =
     (if is_array_index key then insert_index (index_value key) (key, p) ps
      else ps @ [(key, p)])"

text \<open>
  \<^verbatim>\<open>obj[key] = v\<close> in strict code (line 20 of the source). An own property is updated
  in place if it is writable. Otherwise a new enumerable, writable own property is
  created, unless the key resolves to a property of the prototype chain that is not
  writable, or the object is not extensible. Where the assignment cannot be done it
  throws a \<^verbatim>\<open>TypeError\<close>.
\<close>

fun put :: "string \<Rightarrow> jsval \<Rightarrow> jsobject \<Rightarrow> error + jsobject" where
  "put key v (JSObject i ps pr ext) =
     (case map_of ps key of
        Some p \<Rightarrow>
          if writable p
          then Inr (JSObject i
                 (map (\<lambda>(k, q). if k = key then (k, q\<lparr>prop_value := v\<rparr>) else (k, q)) ps) pr ext)
          else Inl TypeError
      | None \<Rightarrow>
          (case (case pr of None \<Rightarrow> None | Some q \<Rightarrow> find_property key q) of
             Some p \<Rightarrow>
               if writable p \<and> ext
               then Inr (JSObject i
                      (insert_own key \<lparr>prop_value = v, enumerable = True, writable = True\<rparr> ps)
                      pr ext)
               else Inl TypeError
           | None \<Rightarrow>
               if ext
               then Inr (JSObject i
                      (insert_own key \<lparr>prop_value = v, enumerable = True, writable = True\<rparr> ps)
                      pr ext)
               else Inl TypeError))"

text \<open>\<^verbatim>\<open>Object.keys(obj)\<close>: the own enumerable keys, in order.\<close>

definition object_keys :: "jsobject \<Rightarrow> string list" where
  "object_keys ob = map fst (filter (\<lambda>(k, p). enumerable p) (own ob))"

text \<open>
  The body of \<^verbatim>\<open>forEach\<close> over the keys of the defaults, key after key; an exception
  ends it.
\<close>

fun forEach_key :: "jsobject \<Rightarrow> string list \<Rightarrow> jsobject \<Rightarrow> error + jsobject" where
  "forEach_key defaults [] obj = Inr obj"
| "forEach_key defaults (key # keys) obj =
     (if \<not> has_property key obj then
        (case put key (get key defaults) obj of
           Inl e \<Rightarrow> Inl e
         | Inr obj' \<Rightarrow> forEach_key defaults keys obj')
      else forEach_key defaults keys obj)"

text \<open>
  \<^verbatim>\<open>_addDefaults(obj, defaults)\<close>. A falsy \<open>obj\<close> is \<open>None\<close>; \<open>fresh\<close> is the
  object that \<^verbatim>\<open>{}\<close> then creates.
\<close>

definition addDefaults :: "jsobject \<Rightarrow> jsobject option \<Rightarrow> jsobject \<Rightarrow> error + jsobject" where
  "addDefaults fresh obj defaults =
     (let obj = (case obj of Some ob \<Rightarrow> ob | None \<Rightarrow> fresh)
      in forEach_key defaults (object_keys defaults) obj)"

text \<open>The property that \<^verbatim>\<open>obj[key] = defaults[key]\<close> creates for a key absent from \<open>obj\<close>.\<close>

definition default_property :: "jsobject \<Rightarrow> string \<Rightarrow> property" where
  "default_property d k = \<lparr>prop_value = get k d, enumerable = True, writable = True\<rparr>"

text \<open>
  An example: \<^verbatim>\<open>Object.prototype\<close> with its non-enumerable \<^verbatim>\<open>toString\<close>, the
  object a \<^verbatim>\<open>{}\<close> creates, a target with the own key \<^verbatim>\<open>a\<close>, the same target
  frozen, and defaults with the enumerable keys \<^verbatim>\<open>7\<close>, \<^verbatim>\<open>a\<close>, \<^verbatim>\<open>b\<close>,
  \<^verbatim>\<open>toString\<close> and the non-enumerable key \<^verbatim>\<open>hidden\<close>.
\<close>

definition object_prototype :: jsobject where
  "object_prototype =
     JSObject 1
       [(''toString'', \<lparr>prop_value = JPlainObject 100, enumerable = False, writable = True\<rparr>)]
       None True"

definition empty_object :: jsobject where
  "empty_object = JSObject 4 [] (Some object_prototype) True"

definition example_target :: jsobject where
  "example_target =
     JSObject 2 [(''a'', \<lparr>prop_value = JNumber 1, enumerable = True, writable = True\<rparr>)]
       (Some object_prototype) True"

definition frozen_target :: jsobject where
  "frozen_target =
     JSObject 2 [(''a'', \<lparr>prop_value = JNumber 1, enumerable = True, writable = False\<rparr>)]
       (Some object_prototype) False"

definition example_defaults :: jsobject where
  "example_defaults =
     JSObject 3
       [(''7'', \<lparr>prop_value = JNumber 70, enumerable = True, writable = True\<rparr>),
        (''a'', \<lparr>prop_value = JNumber 9, enumerable = True, writable = True\<rparr>),
        (''b'', \<lparr>prop_value = JNumber 2, enumerable = True, writable = True\<rparr>),
        (''toString'', \<lparr>prop_value = JNumber 7, enumerable = True, writable = True\<rparr>),
        (''hidden'', \<lparr>prop_value = JNumber 5, enumerable = False, writable = True\<rparr>)]
       (Some object_prototype) True"


section \<open>The request helper \<^verbatim>\<open>xhr\<close>\<close>

text \<open>
  An \<^verbatim>\<open>XMLHttpRequest\<close> object, as far as \<^verbatim>\<open>_xhr\<close> touches it: the two
  handlers, the arguments of \<^verbatim>\<open>open\<close>, the request headers set by the caller, and
  the argument of \<^verbatim>\<open>send\<close>. \<open>sent = None\<close> is a request that has not been sent,
  \<open>sent = Some None\<close> one sent by \<^verbatim>\<open>send()\<close> with no body, and
  \<open>sent = Some (Some b)\<close> one sent with the body \<open>b\<close>.
\<close>

record 'f xhr_request =
  req_onload :: "'f option"
  req_onerror :: "'f option"
  opened :: "(string \<times> string \<times> bool) option"
  requestHeaders :: "(string \<times> string) list"
  sent :: "string option option"

definition new_XMLHttpRequest :: "'f xhr_request" where
  "new_XMLHttpRequest =
     \<lparr>req_onload = None, req_onerror = None, opened = None, requestHeaders = [], sent = None\<rparr>"

definition req_open :: "string \<Rightarrow> string \<Rightarrow> bool \<Rightarrow> 'f xhr_request \<Rightarrow> 'f xhr_request" where
  "req_open method url async req = req\<lparr>opened := Some (method, url, async)\<rparr>"

definition setRequestHeader :: "string \<Rightarrow> string \<Rightarrow> 'f xhr_request \<Rightarrow> 'f xhr_request" where
  "setRequestHeader name v req = req\<lparr>requestHeaders := requestHeaders req @ [(name, v)]\<rparr>"

definition req_send :: "string option \<Rightarrow> 'f xhr_request \<Rightarrow> 'f xhr_request" where
  "req_send payload req = req\<lparr>sent := Some payload\<rparr>"

text \<open>
  \<^verbatim>\<open>_xhr(method, url, reqBodyObject, onload, onerror)\<close>. The platform's
  \<^verbatim>\<open>JSON.stringify\<close> is the parameter \<open>stringify\<close>. The handler \<open>onload\<close> is
  always installed, \<open>onerror\<close> only when it is given.
\<close>

definition xhr ::
  "(jsval \<Rightarrow> string) \<Rightarrow> string \<Rightarrow> string \<Rightarrow> jsval \<Rightarrow> 'f \<Rightarrow> 'f option \<Rightarrow> 'f xhr_request" where
  "xhr stringify method url reqBodyObject onload onerror =
     (let req = new_XMLHttpRequest;
          req = req\<lparr>req_onload := Some onload\<rparr>;
          req = (case onerror of Some h \<Rightarrow> req\<lparr>req_onerror := Some h\<rparr> | None \<Rightarrow> req);
          req = req_open method url True req;
          req = (if truthy reqBodyObject then
                   (let req = setRequestHeader ''Content-Type'' ''application/json'' req
                    in if isString reqBodyObject
                       then req_send (Some (string_of reqBodyObject)) req
                       else req_send (Some (stringify reqBodyObject)) req)
                 else req_send None req)
      in req)"

text \<open>A request is in flight once it has been opened asynchronously and sent.\<close>

definition in_flight :: "string \<Rightarrow> string \<Rightarrow> 'f xhr_request \<Rightarrow> bool" where
  "in_flight method url req = (opened req = Some (method, url, True) \<and> sent req \<noteq> None)"


section \<open>The global binding and \<^verbatim>\<open>noConflict\<close>\<close>

text \<open>
  Loading the script reads \<^verbatim>\<open>window.\<Omega>\<close> into the closure variable \<^verbatim>\<open>_old\<Omega>\<close>
  and, at its end, binds \<^verbatim>\<open>window.\<Omega>\<close> to a new object, the library instance.
  The state is the global binding together with the closure variable.
\<close>

record 'v omega_binding =
  window_Omega :: 'v
  oldOmega :: 'v

definition load_library :: "'v \<Rightarrow> 'v \<Rightarrow> 'v omega_binding" where
  "load_library previous instance =
     (let s = \<lparr>window_Omega = previous, oldOmega = previous\<rparr>
      in s\<lparr>window_Omega := instance\<rparr>)"

definition noConflict :: "'v omega_binding \<Rightarrow> 'v \<times> 'v omega_binding" where
  "noConflict s =
     (let omega = window_Omega s;
          s' = s\<lparr>window_Omega := oldOmega s\<rparr>
      in (omega, s'))"


section \<open>Properties of \<^verbatim>\<open>onDomReady\<close>\<close>

lemma cb_weight_registers: "sum_list (map cb_weight (cb_registers cb)) < cb_weight cb"
  by (cases cb) simp

lemma run_append: "run (xs @ ys) s = run ys (run xs s)"
  by (simp add: run_def)

lemma run_Cons: "run (e # evs) s = run evs (step e s)"
  by (simp add: run_def)

lemma run_Nil: "run [] s = s"
  by (simp add: run_def)

lemma registrations_append: "registrations (xs @ ys) = registrations xs @ registrations ys"
  by (induction xs rule: registrations.induct) simp_all

lemma registrations_Register: "registrations (map Register cbs) = cbs"
  by (induction cbs) simp_all

lemma registrations_timers: "registrations (replicate n TimerFires) = []"
  by (induction n) simp_all

lemma onDomReady_not_invoked: "invoked (state_of (onDomReady cb s)) = invoked s"
  by (simp add: onDomReady_def split: option.splits)

lemma register_all_ready:
  "domIsReady s \<Longrightarrow> register_all rs s = Returned (s\<lparr>timers := timers s @ rs\<rparr>)"
  by (induction rs arbitrary: s) (simp_all add: onDomReady_def)

lemma invoke_ready:
  "domIsReady s \<Longrightarrow>
   state_of (invoke cb s) = s\<lparr>timers := timers s @ cb_registers cb, invoked := invoked s @ [cb]\<rparr>"
  by (simp add: invoke_def register_all_ready)

lemma invoke_ready_outcome:
  "domIsReady s \<Longrightarrow>
   invoke cb s = (if cb_throws cb then Threw else Returned)
     (s\<lparr>timers := timers s @ cb_registers cb, invoked := invoked s @ [cb]\<rparr>)"
  by (simp add: invoke_def register_all_ready)

lemma reached_all: "list_all (\<lambda>cb. \<not> cb_throws cb) cbs \<Longrightarrow> reached cbs = cbs"
  by (induction cbs) simp_all

lemma reached_prefix: "\<exists>skipped. cbs = reached cbs @ skipped"
  by (induction cbs) auto

lemma handler_loop_ready:
  "domIsReady s \<Longrightarrow> domReadyCallbacks s = Some q \<Longrightarrow>
   handler_loop c s =
     (if list_all (\<lambda>cb. \<not> cb_throws cb) (drop c q) then Returned else Threw)
       (s\<lparr>timers := timers s @ concat (map cb_registers (reached (drop c q))),
          invoked := invoked s @ reached (drop c q)\<rparr>)"
proof (induction c s rule: handler_loop.induct)
  case (1 c s)
  show ?case
  proof (cases "c < length q")
    case False
    with 1(3) show ?thesis by (simp add: handler_loop.simps [of c s])
  next
    case True
    then have d: "drop c q = q ! c # drop (Suc c) q"
      by (simp add: Cons_nth_drop_Suc)
    let ?s' = "s\<lparr>timers := timers s @ cb_registers (q ! c), invoked := invoked s @ [q ! c]\<rparr>"
    have i: "invoke (q ! c) s = (if cb_throws (q ! c) then Threw else Returned) ?s'"
      using 1(2) by (rule invoke_ready_outcome)
    show ?thesis
    proof (cases "cb_throws (q ! c)")
      case throws: True
      with 1(3) True i d show ?thesis
        by (simp add: handler_loop.simps [of c s])
    next
      case returns: False
      with i have i': "invoke (q ! c) s = Returned ?s'" by simp
      have "handler_loop (Suc c) ?s' =
          (if list_all (\<lambda>cb. \<not> cb_throws cb) (drop (Suc c) q) then Returned else Threw)
            (?s'\<lparr>timers := timers ?s' @ concat (map cb_registers (reached (drop (Suc c) q))),
                 invoked := invoked ?s' @ reached (drop (Suc c) q)\<rparr>)"
        using 1(1) [OF 1(3) True i'] 1(2) 1(3) by simp
      then show ?thesis
        using 1(3) True i' d returns by (simp add: handler_loop.simps [of c s])
    qed
  qed
qed

lemma onDomReadyHandler_fires:
  assumes "domReadyCallbacks s = Some q"
  shows "state_of (onDomReadyHandler s) =
     \<lparr>domIsReady = True,
      domReadyCallbacks = (if list_all (\<lambda>cb. \<not> cb_throws cb) q then None else Some q),
      listening = False,
      timers = timers s @ concat (map cb_registers (reached q)),
      invoked = invoked s @ reached q\<rparr>"
  using assms handler_loop_ready [of "s\<lparr>domIsReady := True, listening := False\<rparr>" q 0]
  by (simp add: onDomReadyHandler_def)

lemma run_Register_queued:
  "\<not> domIsReady s \<Longrightarrow> domReadyCallbacks s = Some q \<Longrightarrow>
   run (map Register cbs) s = s\<lparr>domReadyCallbacks := Some (q @ cbs)\<rparr>"
  by (induction cbs arbitrary: s q) (simp_all add: run_Nil run_Cons onDomReady_def)

lemma step_ready:
  assumes "domIsReady s" and "\<not> listening s"
  shows "domIsReady (step e s) \<and> \<not> listening (step e s)
     \<and> domReadyCallbacks (step e s) = domReadyCallbacks s
     \<and> (\<exists>new. invoked (step e s) = invoked s @ new
           \<and> mset new + mset (timers (step e s))
               = mset (timers s) + mset (registrations [e]) + mset (concat (map cb_registers new)))"
proof (cases e)
  case (Register cb)
  with assms show ?thesis by (simp add: onDomReady_def)
next
  case DOMContentLoaded
  with assms show ?thesis by simp
next
  case TimerFires
  show ?thesis
  proof (cases "timers s")
    case Nil
    with TimerFires assms show ?thesis by simp
  next
    case (Cons cb rest)
    have "step e s = s\<lparr>timers := rest @ cb_registers cb, invoked := invoked s @ [cb]\<rparr>"
      using TimerFires Cons assms invoke_ready [of "s\<lparr>timers := rest\<rparr>" cb] by simp
    with Cons TimerFires assms show ?thesis by simp
  qed
qed

lemma run_ready:
  "domIsReady s \<Longrightarrow> \<not> listening s \<Longrightarrow>
   domIsReady (run evs s) \<and> \<not> listening (run evs s)
     \<and> domReadyCallbacks (run evs s) = domReadyCallbacks s
     \<and> (\<exists>new. invoked (run evs s) = invoked s @ new
           \<and> mset new + mset (timers (run evs s))
               = mset (timers s) + mset (registrations evs) + mset (concat (map cb_registers new)))"
proof (induction evs arbitrary: s)
  case Nil
  then show ?case by (simp add: run_Nil)
next
  case (Cons e evs)
  from step_ready [OF Cons.prems, of e] obtain new1 where
    s1: "domIsReady (step e s)" "\<not> listening (step e s)"
      "domReadyCallbacks (step e s) = domReadyCallbacks s"
      "invoked (step e s) = invoked s @ new1"
      "mset new1 + mset (timers (step e s))
         = mset (timers s) + mset (registrations [e]) + mset (concat (map cb_registers new1))"
    by blast
  from Cons.IH [OF s1(1,2)] obtain new2 where
    s2: "domIsReady (run evs (step e s))" "\<not> listening (run evs (step e s))"
      "domReadyCallbacks (run evs (step e s)) = domReadyCallbacks (step e s)"
      "invoked (run evs (step e s)) = invoked (step e s) @ new2"
      "mset new2 + mset (timers (run evs (step e s)))
         = mset (timers (step e s)) + mset (registrations evs)
           + mset (concat (map cb_registers new2))"
    by blast
  have r: "registrations (e # evs) = registrations [e] @ registrations evs"
    using registrations_append [of "[e]" evs] by simp
  have "mset (new1 @ new2) + mset (timers (run evs (step e s)))
      = mset new1 + (mset new2 + mset (timers (run evs (step e s))))"
    by simp
  also have "\<dots> = mset new1 + (mset (timers (step e s)) + mset (registrations evs)
      + mset (concat (map cb_registers new2)))"
    by (simp only: s2(5))
  also have "\<dots> = (mset new1 + mset (timers (step e s))) + mset (registrations evs)
      + mset (concat (map cb_registers new2))"
    by (simp add: ac_simps)
  also have "\<dots> = (mset (timers s) + mset (registrations [e])
      + mset (concat (map cb_registers new1))) + mset (registrations evs)
      + mset (concat (map cb_registers new2))"
    by (simp only: s1(5))
  also have "\<dots> = mset (timers s) + mset (registrations (e # evs))
      + mset (concat (map cb_registers (new1 @ new2)))"
    by (simp add: r ac_simps)
  finally have "mset (new1 @ new2) + mset (timers (run evs (step e s)))
      = mset (timers s) + mset (registrations (e # evs))
        + mset (concat (map cb_registers (new1 @ new2)))" .
  moreover have "invoked (run evs (step e s)) = invoked s @ (new1 @ new2)"
    using s1(4) s2(4) by simp
  ultimately have "\<exists>new. invoked (run evs (step e s)) = invoked s @ new
      \<and> mset new + mset (timers (run evs (step e s)))
          = mset (timers s) + mset (registrations (e # evs))
            + mset (concat (map cb_registers new))"
    by blast
  with s1(3) s2(1,2,3) show ?case
    unfolding run_Cons by simp
qed

lemma timers_drain:
  "domIsReady s \<Longrightarrow> \<exists>n. timers (run (replicate n TimerFires) s) = []"
proof (induction "sum_list (map cb_weight (timers s))" arbitrary: s rule: less_induct)
  case less
  show ?case
  proof (cases "timers s")
    case Nil
    then have "timers (run (replicate 0 TimerFires) s) = []" by (simp add: run_Nil)
    then show ?thesis by blast
  next
    case (Cons cb rest)
    let ?s' = "step TimerFires s"
    have s': "?s' = s\<lparr>timers := rest @ cb_registers cb, invoked := invoked s @ [cb]\<rparr>"
      using Cons less.prems invoke_ready [of "s\<lparr>timers := rest\<rparr>" cb] by simp
    have "sum_list (map cb_weight (timers ?s')) < sum_list (map cb_weight (timers s))"
      unfolding s' using Cons cb_weight_registers [of cb] by simp
    moreover have "domIsReady ?s'" unfolding s' using less.prems by simp
    ultimately obtain n where "timers (run (replicate n TimerFires) ?s') = []"
      using less.hyps by blast
    then have "timers (run (replicate (Suc n) TimerFires) s) = []"
      by (simp add: run_Cons)
    then show ?thesis by blast
  qed
qed

lemma after_transition:
  assumes "domIsReady s" and "\<not> listening s"
  shows "\<exists>new. invoked (run evs s) = invoked s @ new"
    and "domReadyCallbacks (run evs s) = domReadyCallbacks s"
    and "mset (invoked (run evs s)) + mset (timers (run evs s))
         = mset (invoked s) + mset (timers s) + mset (registrations evs)
           + mset (concat (map cb_registers (drop (length (invoked s)) (invoked (run evs s)))))"
    and "\<exists>n. timers (run (evs @ replicate n TimerFires) s) = []"
proof -
  from run_ready [OF assms, of evs] obtain new where
    r: "domIsReady (run evs s)" "domReadyCallbacks (run evs s) = domReadyCallbacks s"
      "invoked (run evs s) = invoked s @ new"
      "mset new + mset (timers (run evs s))
         = mset (timers s) + mset (registrations evs) + mset (concat (map cb_registers new))"
    by blast
  from r(3) show "\<exists>new. invoked (run evs s) = invoked s @ new" by blast
  from r(2) show "domReadyCallbacks (run evs s) = domReadyCallbacks s" .
  have "mset (invoked (run evs s)) + mset (timers (run evs s))
      = mset (invoked s) + (mset new + mset (timers (run evs s)))"
    by (simp add: r(3))
  also have "\<dots> = mset (invoked s) + (mset (timers s) + mset (registrations evs)
      + mset (concat (map cb_registers new)))"
    by (simp only: r(4))
  finally show "mset (invoked (run evs s)) + mset (timers (run evs s))
      = mset (invoked s) + mset (timers s) + mset (registrations evs)
        + mset (concat (map cb_registers (drop (length (invoked s)) (invoked (run evs s)))))"
    by (simp add: r(3) ac_simps)
  from timers_drain [OF r(1)] show "\<exists>n. timers (run (evs @ replicate n TimerFires) s) = []"
    by (simp add: run_append)
qed

text \<open>
  Claim C1, at an input where the code departs from it. Two callbacks are registered
  while the document is loading, and the first one throws. The transition invokes the
  first; its exception ends the loop of the handler, so the second is not invoked by the
  transition, no timeout is pending for it, it is not invoked later either, and the queue
  is not discarded.
\<close>

theorem onDomReady_throwing_callback_blocks_queue:
  "\<not> (invoked (scenario [cb_throwing, cb_plain] [TimerFires, TimerFires])
        = [cb_throwing, cb_plain])
   \<and> invoked (scenario [cb_throwing, cb_plain] [TimerFires, TimerFires]) = [cb_throwing]
   \<and> timers (scenario [cb_throwing, cb_plain] [TimerFires, TimerFires]) = []
   \<and> domReadyCallbacks (scenario [cb_throwing, cb_plain] [TimerFires, TimerFires])
       = Some [cb_throwing, cb_plain]
   \<and> count (mset (invoked (scenario [cb_throwing, cb_plain] [TimerFires, TimerFires]))) cb_plain
       = 0"
  by (simp add: scenario_def run_def load_script_def onDomReady_def onDomReadyHandler_def
      handler_loop.simps invoke_def cb_throwing_def cb_plain_def)

text \<open>
  What the code does keep, for any callbacks \<open>pre\<close> registered while the document is
  loading and any events \<open>rest\<close> after the transition. \<^verbatim>\<open>onDomReady\<close> never invokes
  anything itself, and nothing is invoked before the transition. The transition invokes
  the callbacks of the queue in the order of registration, up to and including the first
  one that throws; the queue is discarded exactly when none throws. Whatever happens
  afterwards, the invocations start with those of the transition, and the callbacks
  invoked together with those still waiting for their timeout are exactly the ones the
  transition reached and the ones registered after it (by scripts, or by callbacks while
  they ran); after enough timeouts nothing waits. So every callback but those queued
  behind a throwing one is invoked exactly once.
\<close>

lemma onDomReady_account:
  "invoked (state_of (onDomReady cb s)) = invoked s
   \<and> invoked (run (map Register pre) (load_script Loading)) = []
   \<and> scenario pre []
       = \<lparr>domIsReady = True,
          domReadyCallbacks = (if list_all (\<lambda>cb. \<not> cb_throws cb) pre then None else Some pre),
          listening = False,
          timers = concat (map cb_registers (reached pre)), invoked = reached pre\<rparr>
   \<and> (\<exists>new. invoked (scenario pre rest) = reached pre @ new)
   \<and> domReadyCallbacks (scenario pre rest) = domReadyCallbacks (scenario pre [])
   \<and> mset (invoked (scenario pre rest)) + mset (timers (scenario pre rest))
       = mset (reached pre) + mset (registrations rest)
         + mset (concat (map cb_registers (invoked (scenario pre rest))))
   \<and> (\<exists>n. timers (scenario pre (rest @ replicate n TimerFires)) = []
         \<and> mset (invoked (scenario pre (rest @ replicate n TimerFires)))
             = mset (reached pre) + mset (registrations rest)
               + mset (concat (map cb_registers
                   (invoked (scenario pre (rest @ replicate n TimerFires))))))"
proof -
  let ?init = "load_script Loading"
  let ?s1 = "\<lparr>domIsReady = True,
             domReadyCallbacks = (if list_all (\<lambda>cb. \<not> cb_throws cb) pre then None else Some pre),
             listening = False,
             timers = concat (map cb_registers (reached pre)), invoked = reached pre\<rparr>"
  let ?q = "\<lparr>domIsReady = False, domReadyCallbacks = Some pre, listening = True,
            timers = [], invoked = []\<rparr>"
  have init: "\<not> domIsReady ?init" "domReadyCallbacks ?init = Some []"
    by (simp_all add: load_script_def)
  have queued: "run (map Register pre) ?init = ?q"
    using run_Register_queued [OF init, of pre] by (simp add: load_script_def)
  have handler: "state_of (onDomReadyHandler ?q) = ?s1"
    using onDomReadyHandler_fires [of ?q pre] by simp
  have fired: "run (map Register pre @ [DOMContentLoaded]) ?init = ?s1"
    by (simp add: run_append run_Cons run_Nil queued handler)
  have split_run: "scenario pre evs = run evs ?s1" for evs
    using run_append [of "map Register pre @ [DOMContentLoaded]" evs ?init] fired
    by (simp add: scenario_def)
  have ready: "domIsReady ?s1" "\<not> listening ?s1" by simp_all
  have order: "\<exists>new. invoked (run evs ?s1) = reached pre @ new" for evs
    using after_transition(1) [OF ready, of evs] by simp
  have kept: "domReadyCallbacks (run evs ?s1) = domReadyCallbacks (run [] ?s1)" for evs
    using after_transition(2) [OF ready, of evs] by (simp add: run_Nil)
  have account: "mset (invoked (run evs ?s1)) + mset (timers (run evs ?s1))
      = mset (reached pre) + mset (registrations evs)
        + mset (concat (map cb_registers (invoked (run evs ?s1))))" for evs
  proof -
    from order [of evs] obtain new where new: "invoked (run evs ?s1) = reached pre @ new"
      by blast
    from after_transition(3) [OF ready, of evs] new show ?thesis
      by (simp add: ac_simps)
  qed
  have drained: "\<exists>n. timers (run (rest @ replicate n TimerFires) ?s1) = []
      \<and> mset (invoked (run (rest @ replicate n TimerFires) ?s1))
          = mset (reached pre) + mset (registrations rest)
            + mset (concat (map cb_registers (invoked (run (rest @ replicate n TimerFires) ?s1))))"
  proof -
    from after_transition(4) [OF ready, of rest] obtain n where
      n: "timers (run (rest @ replicate n TimerFires) ?s1) = []" by blast
    from account [of "rest @ replicate n TimerFires"] n
    have "mset (invoked (run (rest @ replicate n TimerFires) ?s1))
        = mset (reached pre) + mset (registrations rest)
          + mset (concat (map cb_registers (invoked (run (rest @ replicate n TimerFires) ?s1))))"
      by (simp add: registrations_append registrations_timers)
    with n show ?thesis by blast
  qed
  have "invoked (state_of (onDomReady cb s)) = invoked s"
    by (rule onDomReady_not_invoked)
  moreover have "invoked (run (map Register pre) ?init) = []"
    by (simp add: queued)
  moreover have "scenario pre [] = ?s1"
    by (simp add: split_run run_Nil)
  ultimately show ?thesis
    using order [of rest] kept [of rest] account [of rest] drained
    by (simp only: split_run)
qed

text \<open>
  A run in which no callback throws, computed: the callback registered by another one
  while it ran and the callback registered after the transition are invoked once each.
\<close>

lemma scenario_example:
  "scenario [cb_nested, cb_plain] ([Register cb_plain, TimerFires] @ replicate 2 TimerFires)
     = \<lparr>domIsReady = True, domReadyCallbacks = None, listening = False, timers = [],
        invoked = [cb_nested, cb_plain, cb_plain, cb_plain]\<rparr>"
  by (simp add: scenario_def run_def load_script_def onDomReady_def onDomReadyHandler_def
      handler_loop.simps invoke_def cb_nested_def cb_plain_def numeral_2_eq_2)

text \<open>
  A script loaded when the document is already interactive or complete: the handler is
  never registered, every callback goes through \<^verbatim>\<open>setTimeout\<close>, and the same
  account holds with no condition on the callbacks.
\<close>

lemma onDomReady_loaded_late:
  assumes "readyState \<noteq> Loading"
  shows "mset (invoked (run evs (load_script readyState)))
           + mset (timers (run evs (load_script readyState)))
         = mset (registrations evs)
           + mset (concat (map cb_registers (invoked (run evs (load_script readyState)))))"
    and "\<exists>n. timers (run (evs @ replicate n TimerFires) (load_script readyState)) = []"
proof -
  have ready: "domIsReady (load_script readyState)" "\<not> listening (load_script readyState)"
    using assms by (cases readyState; simp add: load_script_def)+
  have "invoked (load_script readyState) = []" "timers (load_script readyState) = []"
    by (simp_all add: load_script_def Let_def)
  with after_transition(3) [OF ready, of evs]
  show "mset (invoked (run evs (load_script readyState)))
           + mset (timers (run evs (load_script readyState)))
         = mset (registrations evs)
           + mset (concat (map cb_registers (invoked (run evs (load_script readyState)))))"
    by simp
  from after_transition(4) [OF ready, of evs]
  show "\<exists>n. timers (run (evs @ replicate n TimerFires) (load_script readyState)) = []" .
qed


section \<open>Properties of \<^verbatim>\<open>parent\<close>\<close>

lemmas example_page_defs = example_page_def window_node_def document_node_def html_node_def
  head_node_def body_node_def div_node_def span_node_def


lemma parent_loop_not_body: "parent_loop pg sel p = Inr (Some r) \<Longrightarrow> Some r \<noteq> body pg"
  by (induction pg sel p rule: parent_loop.induct)
    (auto simp: matches_def split: if_splits sum.splits bool.splits)




lemma parent_loop_at_body: "parent_loop pg sel (body pg) = Inr None"
proof (cases "body pg")
  case None
  then show ?thesis by simp
next
  case (Some b)
  then show ?thesis by (cases b) simp
qed

lemma parent_proceeds:
  "\<not> arguments_missing node selector \<Longrightarrow> \<not> disallowed_start pg node \<Longrightarrow>
   parent pg node selector includeSelf =
     parent_loop pg (the selector) (if includeSelf then node else parentNode (the node))"
  by (auto simp: parent_def arguments_missing_def disallowed_start_def split: option.splits)

lemma parent_missing:
  "arguments_missing node selector \<Longrightarrow> parent pg node selector includeSelf = Inl ArgumentsMissing"
  by (auto simp: parent_def arguments_missing_def split: option.splits)

lemma parent_disallowed:
  "\<not> arguments_missing node selector \<Longrightarrow> disallowed_start pg node \<Longrightarrow>
   parent pg node selector includeSelf = Inl InvalidNode"
  by (auto simp: parent_def arguments_missing_def disallowed_start_def split: option.splits)

text \<open>
  Claim C3, at an input where the code departs from it. \<^verbatim>\<open>head\<close> is an element and
  none of the four refused nodes, and no ancestor of it matches \<^verbatim>\<open>div\<close>. The scan
  does not meet the body, goes on from \<^verbatim>\<open>html\<close> to the document, and calls
  \<^verbatim>\<open>matches\<close> on it: a \<^verbatim>\<open>TypeError\<close>, where the claim has \<^verbatim>\<open>undefined\<close>.
\<close>

theorem parent_outside_body_throws:
  "parent example_page (Some head_node) (Some ''div'') False = Inl TypeError"
  by (simp add: parent_def example_page_defs matches_def)




text \<open>
  Claim C10, at an input where the code departs from it. The script was loaded in the
  \<^verbatim>\<open>head\<close>, so \<^verbatim>\<open>_body\<close> is \<^verbatim>\<open>null\<close>. The scan from the \<^verbatim>\<open>span\<close> tests the
  \<^verbatim>\<open>div\<close>, then arrives at the body element, which is not \<^verbatim>\<open>_body\<close>: the body is
  tested against the selector and returned.
\<close>

theorem parent_returns_body_when_loaded_in_head:
  "body head_loaded_page = None
   \<and> parentNode div_node = Some body_node
   \<and> parent head_loaded_page (Some span_node) (Some ''body'') False = Inr (Some body_node)"
  by (simp add: parent_def head_loaded_page_def example_page_defs matches_def)

text \<open>
  Where a body was captured, the search never returns it: a scan that arrives at the
  captured body stops there with \<^verbatim>\<open>undefined\<close>, and the body is not tested against
  the selector.
\<close>

theorem parent_never_body:
  "(body pg = Some b \<longrightarrow> parent pg node selector includeSelf \<noteq> Inr (Some b))
   \<and> parent_loop pg sel (body pg) = Inr None"
proof -
  have "parent pg node selector includeSelf \<noteq> Inr (Some b)" if b: "body pg = Some b"
  proof (cases "arguments_missing node selector \<or> disallowed_start pg node")
    case True
    then show ?thesis
      by (cases "arguments_missing node selector") (auto simp: parent_missing parent_disallowed)
  next
    case False
    then show ?thesis
      using parent_loop_not_body [of pg "the selector" _ b] b
      by (auto simp: parent_proceeds)
  qed
  then show ?thesis by (simp add: parent_loop_at_body)
qed

theorem parent_never_body_witness:
  "body example_page = Some body_node
   \<and> element_matches example_page body_node ''body''
   \<and> parent example_page (Some span_node) (Some ''body'') False \<noteq> Inr (Some body_node)
   \<and> parent example_page (Some span_node) (Some ''body'') False = Inr None"
  using parent_never_body [of example_page body_node "Some span_node" "Some ''body''" False]
  by (simp add: parent_def example_page_defs matches_def)


section \<open>Properties of \<^verbatim>\<open>frag\<close> and \<^verbatim>\<open>parseOne\<close>\<close>

lemma find_removed: "find_node i (remove_node i f) = None"
  by (induction i f rule: remove_node.induct) auto

lemma markup_of_build:
  "markup_of (fst (build n m)) = m"
  "map markup_of (fst (build_list n ms)) = ms"
  "map_option markup_of (fst (build_option n mo)) = mo"
  by (induction n m and n ms and n mo rule: build_build_list_build_option.induct)
    (auto simp: Let_def split: prod.splits)

lemma build_fresh:
  "n \<le> snd (build n m) \<and> idents (fst (build n m)) \<subseteq> {n ..< snd (build n m)}"
  "n \<le> snd (build_list n ms) \<and> (\<forall>t \<in> set (fst (build_list n ms)). idents t \<subseteq> {n ..< snd (build_list n ms)})"
  "n \<le> snd (build_option n mo) \<and> (\<forall>t \<in> set_option (fst (build_option n mo)). idents t \<subseteq> {n ..< snd (build_option n mo)})"
proof (induction n m and n ms and n mo rule: build_build_list_build_option.induct)
  case (1 n k l cs tc)
  then show ?case
    by (fastforce simp: Let_def split: prod.splits)
next
  case (2 n)
  then show ?case by simp
next
  case (3 n m ms)
  then show ?case by (fastforce simp: Let_def split: prod.splits)
next
  case (4 n)
  then show ?case by simp
next
  case (5 n m)
  then show ?case by (fastforce simp: Let_def split: prod.splits)
qed

lemma move_children_all:
  "move_children tmp fr =
     (set_childNodes [] tmp,
      set_childNodes (childNodes fr @ concat (map inserted_nodes (childNodes tmp))) fr)"
proof (induction tmp fr rule: move_children.induct)
  case (1 tmp fr)
  have unfold: "move_children tmp fr =
      (case firstChild tmp of
         None \<Rightarrow> (tmp, fr)
       | Some el \<Rightarrow> move_children (removeChild tmp el) (appendChild fr el))"
    by (rule move_children.simps)
  show ?case
  proof (cases "childNodes tmp")
    case Nil
    then have "firstChild tmp = None" by (simp add: firstChild_def)
    with unfold have "move_children tmp fr = (tmp, fr)" by simp
    moreover from Nil have "set_childNodes [] tmp = tmp"
      by (cases tmp) (simp add: set_childNodes_def)
    moreover have "set_childNodes (childNodes fr) fr = fr"
      by (cases fr) (simp add: set_childNodes_def)
    ultimately show ?thesis using Nil by simp
  next
    case (Cons el rest)
    then have f: "firstChild tmp = Some el" by (simp add: firstChild_def)
    with unfold have "move_children tmp fr = move_children (removeChild tmp el) (appendChild fr el)"
      by simp
    with 1 [OF f] Cons show ?thesis
      by (simp add: removeChild_def appendChild_def set_childNodes_def)
  qed
qed

lemma markup_of_sel:
  "mkind (markup_of t) = tkind t"
  "mchildren (markup_of t) = map markup_of (childNodes t)"
  by (cases t; simp)+

lemma idents_child: "c \<in> set (childNodes t) \<Longrightarrow> idents c \<subseteq> idents t"
  by (cases t) auto

lemma find_node_ident: "find_node i f = Some t \<Longrightarrow> ident t = i"
  by (induction i f rule: find_node.induct) (auto split: if_splits option.splits)

lemma inserted_nodes_plain:
  "list_all (\<lambda>t. tkind t \<noteq> DocumentFragmentNode) ts \<Longrightarrow> concat (map inserted_nodes ts) = ts"
  by (induction ts) (auto simp: inserted_nodes_def)

lemma build_list_kinds:
  "list_all (\<lambda>t. tkind t \<noteq> DocumentFragmentNode) (fst (build_list n ms))
     = list_all (\<lambda>m. mkind m \<noteq> DocumentFragmentNode) ms"
proof -
  have "list_all (\<lambda>m. mkind m \<noteq> DocumentFragmentNode) (map markup_of (fst (build_list n ms)))
      = list_all (\<lambda>t. tkind t \<noteq> DocumentFragmentNode) (fst (build_list n ms))"
    by (simp add: list_all_iff markup_of_sel)
  then show ?thesis by (simp add: markup_of_build)
qed

lemma frag_falsy:
  "\<not> truthy v \<Longrightarrow>
   frag P s v flag = (DomTree (next_id s) DocumentFragmentNode [] [] None, s\<lparr>next_id := Suc (next_id s)\<rparr>)"
  by (simp add: frag_def createDocumentFragment_def)

lemma frag_string:
  "truthy v \<Longrightarrow> isString v \<Longrightarrow>
   frag P s v flag =
     (DomTree (next_id s) DocumentFragmentNode []
        (concat (map inserted_nodes (fst (build_list (Suc (Suc (next_id s))) (P (string_of v)))))) None,
      s\<lparr>next_id := snd (build_list (Suc (Suc (next_id s))) (P (string_of v)))\<rparr>)"
  by (simp add: frag_def createDocumentFragment_def makeEl_def set_innerHTML_def move_children_all
      set_childNodes_def split: prod.splits)

lemma frag_template:
  assumes "find_node i (roots s) = Some el" "tkind el = ElementNode" "content el = Some tc"
  shows "frag P s (JDomNode i) flag =
     (DomTree (next_id s) DocumentFragmentNode []
        (inserted_nodes (fst (build (Suc (next_id s)) (markup_of tc)))) None,
      s\<lparr>next_id := snd (build (Suc (next_id s)) (markup_of tc))\<rparr>)"
  using assms
  by (simp add: frag_def createDocumentFragment_def isString_def isNullOrUndefined_def node_of_def
      instanceof_Element_def instanceof_HTMLTemplateElement_def cloneNode_def appendChild_def
      set_childNodes_def split: prod.splits)

lemma frag_clone:
  assumes "find_node i (roots s) = Some el" "tkind el = ElementNode" "content el = None"
  shows "frag P s (JDomNode i) True =
     (DomTree (next_id s) DocumentFragmentNode []
        [fst (build (Suc (next_id s)) (markup_of el))] None,
      s\<lparr>next_id := snd (build (Suc (next_id s)) (markup_of el))\<rparr>)"
proof -
  have "tkind (fst (build (Suc (next_id s)) (markup_of el))) = ElementNode"
    using markup_of_sel(1) [of "fst (build (Suc (next_id s)) (markup_of el))"] assms(2)
    by (simp add: markup_of_build markup_of_sel)
  with assms show ?thesis
    by (auto simp: frag_def createDocumentFragment_def isString_def isNullOrUndefined_def node_of_def
      instanceof_Element_def instanceof_HTMLTemplateElement_def cloneNode_def appendChild_def
      set_childNodes_def inserted_nodes_def split: prod.splits)
qed

lemma frag_adopt:
  assumes "find_node i (roots s) = Some el" "tkind el = ElementNode" "content el = None"
  shows "frag P s (JDomNode i) False =
     (DomTree (next_id s) DocumentFragmentNode [] [el] None,
      s\<lparr>roots := remove_node i (roots s), next_id := Suc (next_id s)\<rparr>)"
  using assms find_node_ident [OF assms(1)]
  by (simp add: frag_def createDocumentFragment_def isString_def isNullOrUndefined_def node_of_def
      instanceof_Element_def instanceof_HTMLTemplateElement_def appendChild_def set_childNodes_def
      inserted_nodes_def split: prod.splits)

text \<open>
  Claim C6. With \<^verbatim>\<open>undefined\<close>, \<^verbatim>\<open>null\<close> or the empty string the result is a new
  fragment without children. With a truthy string (a string that is not empty, or a
  \<^verbatim>\<open>String\<close> object), and a parser that yields no document fragments, the children
  of the fragment are the nodes that
  \<^verbatim>\<open>tmp.innerHTML = content\<close> made, in their order: their markup is what the parser
  returned. \<^verbatim>\<open>parseOne\<close> returns the only child when the fragment has exactly one
  child, and the fragment otherwise.
\<close>

theorem frag_text_and_parseOne:
  "frag P s JUndefined flag
     = (DomTree (next_id s) DocumentFragmentNode [] [] None, s\<lparr>next_id := Suc (next_id s)\<rparr>)
   \<and> frag P s JNull flag
     = (DomTree (next_id s) DocumentFragmentNode [] [] None, s\<lparr>next_id := Suc (next_id s)\<rparr>)
   \<and> frag P s (JString []) flag
     = (DomTree (next_id s) DocumentFragmentNode [] [] None, s\<lparr>next_id := Suc (next_id s)\<rparr>)
   \<and> (truthy w \<and> isString w
        \<and> list_all (\<lambda>m. mkind m \<noteq> DocumentFragmentNode) (P (string_of w)) \<longrightarrow>
        tkind (fst (frag P s w flag)) = DocumentFragmentNode
        \<and> childNodes (fst (frag P s w flag))
            = fst (build_list (Suc (Suc (next_id s))) (P (string_of w)))
        \<and> map markup_of (childNodes (fst (frag P s w flag))) = P (string_of w))
   \<and> (length (childNodes (fst (frag P s v flag))) = 1 \<longrightarrow>
        fst (parseOne P s v flag) = Some (hd (childNodes (fst (frag P s v flag)))))
   \<and> (length (childNodes (fst (frag P s v flag))) \<noteq> 1 \<longrightarrow>
        fst (parseOne P s v flag) = Some (fst (frag P s v flag)))"
proof -
  have parsed: "tkind (fst (frag P s w flag)) = DocumentFragmentNode
      \<and> childNodes (fst (frag P s w flag))
          = fst (build_list (Suc (Suc (next_id s))) (P (string_of w)))
      \<and> map markup_of (childNodes (fst (frag P s w flag))) = P (string_of w)"
    if w: "truthy w" "isString w"
      and plain: "list_all (\<lambda>m. mkind m \<noteq> DocumentFragmentNode) (P (string_of w))"
  proof -
    have "concat (map inserted_nodes (fst (build_list (Suc (Suc (next_id s))) (P (string_of w)))))
        = fst (build_list (Suc (Suc (next_id s))) (P (string_of w)))"
      using plain by (simp add: inserted_nodes_plain build_list_kinds)
    then show ?thesis
      by (simp add: frag_string [OF w] markup_of_build)
  qed
  have one: "fst (parseOne P s v flag) = Some (hd (childNodes (fst (frag P s v flag))))"
    if "length (childNodes (fst (frag P s v flag))) = 1"
    using that
    by (cases "childNodes (fst (frag P s v flag))")
      (auto simp: parseOne_def firstChild_def split: prod.splits)
  have other: "fst (parseOne P s v flag) = Some (fst (frag P s v flag))"
    if "length (childNodes (fst (frag P s v flag))) \<noteq> 1"
    using that by (auto simp: parseOne_def split: prod.splits)
  have empties:
    "frag P s JUndefined flag
       = (DomTree (next_id s) DocumentFragmentNode [] [] None, s\<lparr>next_id := Suc (next_id s)\<rparr>)"
    "frag P s JNull flag
       = (DomTree (next_id s) DocumentFragmentNode [] [] None, s\<lparr>next_id := Suc (next_id s)\<rparr>)"
    "frag P s (JString []) flag
       = (DomTree (next_id s) DocumentFragmentNode [] [] None, s\<lparr>next_id := Suc (next_id s)\<rparr>)"
    by (simp_all add: frag_falsy)
  from empties parsed one other show ?thesis by blast
qed

theorem frag_text_and_parseOne_witness:
  "list_all (\<lambda>m. mkind m \<noteq> DocumentFragmentNode) (example_parse_html ''<p>x</p><b></b>'')
   \<and> childNodes (fst (frag example_parse_html example_dom (JString ''<p>x</p><b></b>'') False))
       = [DomTree 13 ElementNode ''p'' [DomTree 14 TextNode ''x'' [] None] None,
          DomTree 15 ElementNode ''b'' [] None]
   \<and> length (childNodes (fst (frag example_parse_html example_dom (JString ''<p>x</p><b></b>'') False)))
        \<noteq> 1
   \<and> fst (parseOne example_parse_html example_dom (JString ''<p>x</p><b></b>'') False)
       = Some (fst (frag example_parse_html example_dom (JString ''<p>x</p><b></b>'') False))
   \<and> list_all (\<lambda>m. mkind m \<noteq> DocumentFragmentNode) (example_parse_html ''<i></i>'')
   \<and> length (childNodes (fst (frag example_parse_html example_dom (JString ''<i></i>'') False))) = 1
   \<and> fst (parseOne example_parse_html example_dom (JString ''<i></i>'') False)
       = Some (DomTree 13 ElementNode ''i'' [] None)"
proof -
  have p: "list_all (\<lambda>m. mkind m \<noteq> DocumentFragmentNode) (example_parse_html ''<p>x</p><b></b>'')"
    and q: "list_all (\<lambda>m. mkind m \<noteq> DocumentFragmentNode) (example_parse_html ''<i></i>'')"
    by (simp_all add: example_parse_html_def)
  have n: "Suc (Suc (next_id example_dom)) = 13"
    by (simp add: example_dom_def)
  have w: "truthy (JString ''<p>x</p><b></b>'')" "isString (JString ''<p>x</p><b></b>'')"
    "truthy (JString ''<i></i>'')" "isString (JString ''<i></i>'')"
    by (simp_all add: isString_def isNullOrUndefined_def)
  have b: "fst (build_list 13 (example_parse_html ''<p>x</p><b></b>''))
      = [DomTree 13 ElementNode ''p'' [DomTree 14 TextNode ''x'' [] None] None,
         DomTree 15 ElementNode ''b'' [] None]"
    "fst (build_list 13 (example_parse_html ''<i></i>'')) = [DomTree 13 ElementNode ''i'' [] None]"
    by (simp_all add: example_parse_html_def)
  note t1 = frag_text_and_parseOne [of example_parse_html example_dom False
      "JString ''<p>x</p><b></b>''" "JString ''<p>x</p><b></b>''"]
  note t2 = frag_text_and_parseOne [of example_parse_html example_dom False
      "JString ''<i></i>''" "JString ''<i></i>''"]
  from t1 p n b w have c1:
    "childNodes (fst (frag example_parse_html example_dom (JString ''<p>x</p><b></b>'') False))
       = [DomTree 13 ElementNode ''p'' [DomTree 14 TextNode ''x'' [] None] None,
          DomTree 15 ElementNode ''b'' [] None]"
    by simp
  from t2 q n b w have c2:
    "childNodes (fst (frag example_parse_html example_dom (JString ''<i></i>'') False))
       = [DomTree 13 ElementNode ''i'' [] None]"
    by simp
  from t1 c1 have
    "fst (parseOne example_parse_html example_dom (JString ''<p>x</p><b></b>'') False)
       = Some (fst (frag example_parse_html example_dom (JString ''<p>x</p><b></b>'') False))"
    by simp
  moreover from t2 c2 have
    "fst (parseOne example_parse_html example_dom (JString ''<i></i>'') False)
       = Some (DomTree 13 ElementNode ''i'' [] None)"
    by simp
  ultimately show ?thesis using p q c1 c2 by simp
qed

text \<open>
  Claim C7. For a reference to an element, wherever it is (in the document, in a detached
  tree, or in the content of a template): if it is a template, the
  children of the fragment are new nodes with the markup of the children of the template's
  content, and every node is where it was; if it is no template and the clone flag is
  set, the fragment holds one new node with the markup of the element, and every node is
  where it was; if the flag is not set, the fragment holds the element itself, and the
  element is gone from the place where it was.
\<close>

theorem frag_of_node:
  assumes "find_node i (roots s) = Some el" and "tkind el = ElementNode"
  shows "(content el = Some tc \<and> tkind tc = DocumentFragmentNode \<longrightarrow>
            roots (snd (frag P s (JDomNode i) flag)) = roots s
            \<and> map markup_of (childNodes (fst (frag P s (JDomNode i) flag)))
                = map markup_of (childNodes tc)
            \<and> (\<forall>c \<in> set (childNodes (fst (frag P s (JDomNode i) flag))).
                  idents c \<subseteq> {next_id s ..< next_id (snd (frag P s (JDomNode i) flag))}))
       \<and> (content el = None \<longrightarrow>
            roots (snd (frag P s (JDomNode i) True)) = roots s
            \<and> (\<exists>c. childNodes (fst (frag P s (JDomNode i) True)) = [c]
                  \<and> markup_of c = markup_of el
                  \<and> idents c \<subseteq> {next_id s ..< next_id (snd (frag P s (JDomNode i) True))}))
       \<and> (content el = None \<longrightarrow>
            childNodes (fst (frag P s (JDomNode i) False)) = [el]
            \<and> roots (snd (frag P s (JDomNode i) False)) = remove_node i (roots s)
            \<and> find_node i (roots (snd (frag P s (JDomNode i) False))) = None)"
proof -
  let ?n = "Suc (next_id s)"
  have template: "roots (snd (frag P s (JDomNode i) flag)) = roots s
      \<and> map markup_of (childNodes (fst (frag P s (JDomNode i) flag)))
          = map markup_of (childNodes tc)
      \<and> (\<forall>c \<in> set (childNodes (fst (frag P s (JDomNode i) flag))).
            idents c \<subseteq> {next_id s ..< next_id (snd (frag P s (JDomNode i) flag))})"
    if tc: "content el = Some tc" "tkind tc = DocumentFragmentNode"
  proof -
    let ?c = "fst (build ?n (markup_of tc))"
    have m: "markup_of ?c = markup_of tc" by (simp add: markup_of_build)
    then have k: "tkind ?c = DocumentFragmentNode"
      using markup_of_sel(1) [of ?c] tc(2) by (simp add: markup_of_sel)
    have ch: "map markup_of (childNodes ?c) = map markup_of (childNodes tc)"
      using markup_of_sel(2) [of ?c] m by (simp add: markup_of_sel)
    have fresh: "idents c \<subseteq> {next_id s ..< snd (build ?n (markup_of tc))}"
      if "c \<in> set (childNodes ?c)" for c
      using idents_child [OF that] build_fresh(1) [of ?n "markup_of tc"] by auto
    from frag_template [OF assms tc(1), of P flag] k ch fresh show ?thesis
      by (simp add: inserted_nodes_def)
  qed
  have clone: "roots (snd (frag P s (JDomNode i) True)) = roots s
      \<and> (\<exists>c. childNodes (fst (frag P s (JDomNode i) True)) = [c]
            \<and> markup_of c = markup_of el
            \<and> idents c \<subseteq> {next_id s ..< next_id (snd (frag P s (JDomNode i) True))})"
    if el: "content el = None"
  proof -
    have "idents (fst (build ?n (markup_of el))) \<subseteq> {next_id s ..< snd (build ?n (markup_of el))}"
      using build_fresh(1) [of ?n "markup_of el"] by auto
    with frag_clone [OF assms el, of P] show ?thesis
      by (simp add: markup_of_build)
  qed
  have adopt: "childNodes (fst (frag P s (JDomNode i) False)) = [el]
      \<and> roots (snd (frag P s (JDomNode i) False)) = remove_node i (roots s)
      \<and> find_node i (roots (snd (frag P s (JDomNode i) False))) = None"
    if el: "content el = None"
    using frag_adopt [OF assms el, of P] by (simp add: find_removed)
  from template clone adopt show ?thesis by blast
qed

theorem frag_of_node_witness:
  "find_node 7 (roots example_dom) = Some example_template
   \<and> tkind example_template = ElementNode
   \<and> content example_template = Some example_template_content
   \<and> tkind example_template_content = DocumentFragmentNode
   \<and> roots (snd (frag example_parse_html example_dom (JDomNode 7) False)) = roots example_dom
   \<and> map markup_of (childNodes (fst (frag example_parse_html example_dom (JDomNode 7) False)))
       = [Markup ElementNode ''li'' [] None, Markup ElementNode ''li'' [] None]
   \<and> find_node 5 (roots example_dom) = Some example_div
   \<and> tkind example_div = ElementNode
   \<and> content example_div = None
   \<and> roots (snd (frag example_parse_html example_dom (JDomNode 5) True)) = roots example_dom
   \<and> childNodes (fst (frag example_parse_html example_dom (JDomNode 5) False)) = [example_div]
   \<and> find_node 5 (roots (snd (frag example_parse_html example_dom (JDomNode 5) False))) = None
   \<and> roots (snd (frag example_parse_html example_dom (JDomNode 5) False))
       = [DomTree 1 DocumentNode []
           [DomTree 2 ElementNode ''html''
              [DomTree 3 ElementNode ''head'' [] None,
               DomTree 4 ElementNode ''body'' [example_template] None] None] None]
   \<and> find_node 9 (roots example_dom) = Some (DomTree 9 ElementNode ''li'' [] None)
   \<and> childNodes (fst (frag example_parse_html example_dom (JDomNode 9) False))
       = [DomTree 9 ElementNode ''li'' [] None]
   \<and> find_node 9 (roots (snd (frag example_parse_html example_dom (JDomNode 9) False))) = None
   \<and> roots (snd (frag example_parse_html example_dom (JDomNode 9) False))
       = [DomTree 1 DocumentNode []
           [DomTree 2 ElementNode ''html''
              [DomTree 3 ElementNode ''head'' [] None,
               DomTree 4 ElementNode ''body''
                 [example_div,
                  DomTree 7 ElementNode ''template'' []
                    (Some (DomTree 8 DocumentFragmentNode []
                       [DomTree 10 ElementNode ''li'' [] None] None))] None] None] None]"
proof -
  have f7: "find_node 7 (roots example_dom) = Some example_template"
    and f5: "find_node 5 (roots example_dom) = Some example_div"
    and f9: "find_node 9 (roots example_dom) = Some (DomTree 9 ElementNode ''li'' [] None)"
    by (simp_all add: example_dom_def example_div_def example_template_def
        example_template_content_def)
  have k: "tkind example_template = ElementNode" "tkind example_div = ElementNode"
    "content example_template = Some example_template_content"
    "tkind example_template_content = DocumentFragmentNode"
    "content example_div = None"
    by (simp_all add: example_div_def example_template_def example_template_content_def)
  have k9: "tkind (DomTree 9 ElementNode ''li'' [] None) = ElementNode"
    "content (DomTree 9 ElementNode ''li'' [] None) = None"
    by simp_all
  have m: "map markup_of (childNodes example_template_content)
      = [Markup ElementNode ''li'' [] None, Markup ElementNode ''li'' [] None]"
    by (simp add: example_template_content_def)
  have r: "remove_node 5 (roots example_dom)
      = [DomTree 1 DocumentNode []
           [DomTree 2 ElementNode ''html''
              [DomTree 3 ElementNode ''head'' [] None,
               DomTree 4 ElementNode ''body'' [example_template] None] None] None]"
    by (simp add: example_dom_def example_div_def example_template_def
        example_template_content_def)
  have r9: "remove_node 9 (roots example_dom)
      = [DomTree 1 DocumentNode []
           [DomTree 2 ElementNode ''html''
              [DomTree 3 ElementNode ''head'' [] None,
               DomTree 4 ElementNode ''body''
                 [example_div,
                  DomTree 7 ElementNode ''template'' []
                    (Some (DomTree 8 DocumentFragmentNode []
                       [DomTree 10 ElementNode ''li'' [] None] None))] None] None] None]"
    by (simp add: example_dom_def example_div_def example_template_def
        example_template_content_def)
  note t7 = frag_of_node [OF f7 k(1), where tc = example_template_content
      and P = example_parse_html and flag = False]
  note t5 = frag_of_node [OF f5 k(2), where tc = example_template_content
      and P = example_parse_html and flag = False]
  note t9 = frag_of_node [OF f9 k9(1), where tc = example_template_content
      and P = example_parse_html and flag = False]
  from t7 k m have
    "roots (snd (frag example_parse_html example_dom (JDomNode 7) False)) = roots example_dom"
    "map markup_of (childNodes (fst (frag example_parse_html example_dom (JDomNode 7) False)))
       = [Markup ElementNode ''li'' [] None, Markup ElementNode ''li'' [] None]"
    by simp_all
  moreover from t5 k have
    "roots (snd (frag example_parse_html example_dom (JDomNode 5) True)) = roots example_dom"
    "childNodes (fst (frag example_parse_html example_dom (JDomNode 5) False)) = [example_div]"
    "find_node 5 (roots (snd (frag example_parse_html example_dom (JDomNode 5) False))) = None"
    by blast+
  moreover from t5 k have
    "roots (snd (frag example_parse_html example_dom (JDomNode 5) False))
       = remove_node 5 (roots example_dom)"
    by simp
  with r have
    "roots (snd (frag example_parse_html example_dom (JDomNode 5) False))
       = [DomTree 1 DocumentNode []
           [DomTree 2 ElementNode ''html''
              [DomTree 3 ElementNode ''head'' [] None,
               DomTree 4 ElementNode ''body'' [example_template] None] None] None]"
    by simp
  moreover from t9 k9 have
    "childNodes (fst (frag example_parse_html example_dom (JDomNode 9) False))
       = [DomTree 9 ElementNode ''li'' [] None]"
    "find_node 9 (roots (snd (frag example_parse_html example_dom (JDomNode 9) False))) = None"
    by blast+
  moreover from t9 k9 have
    "roots (snd (frag example_parse_html example_dom (JDomNode 9) False))
       = remove_node 9 (roots example_dom)"
    by simp
  with r9 have
    "roots (snd (frag example_parse_html example_dom (JDomNode 9) False))
       = [DomTree 1 DocumentNode []
           [DomTree 2 ElementNode ''html''
              [DomTree 3 ElementNode ''head'' [] None,
               DomTree 4 ElementNode ''body''
                 [example_div,
                  DomTree 7 ElementNode ''template'' []
                    (Some (DomTree 8 DocumentFragmentNode []
                       [DomTree 10 ElementNode ''li'' [] None] None))] None] None] None]"
    by simp
  ultimately show ?thesis using f7 f5 f9 k by blast
qed


section \<open>Properties of \<^verbatim>\<open>addDefaults\<close>\<close>

lemma has_property_cases:
  "has_property k (JSObject i ps pr ext) =
     (map_of ps k \<noteq> None \<or> (\<exists>q. pr = Some q \<and> has_property k q))"
  by (auto simp: has_property_def split: option.splits)

lemma get_cases:
  "get k (JSObject i ps pr ext) =
     (case map_of ps k of
        Some p \<Rightarrow> prop_value p
      | None \<Rightarrow> (case pr of None \<Rightarrow> JUndefined | Some q \<Rightarrow> get k q))"
  by (auto simp: get_def split: option.splits)

lemma map_of_insert_index_at:
  "map_of ps k = None \<Longrightarrow>
   map_of (insert_index n (k, p) ps) x = (if x = k then Some p else map_of ps x)"
  by (induction ps) (auto split: if_splits)

lemma map_of_insert_index:
  "map_of ps k = None \<Longrightarrow> map_of (insert_index n (k, p) ps) = (map_of ps)(k \<mapsto> p)"
  by (simp add: fun_eq_iff map_of_insert_index_at)

lemma map_of_insert_own:
  "map_of ps k = None \<Longrightarrow> map_of (insert_own k p ps) = (map_of ps)(k \<mapsto> p)"
  by (auto simp: insert_own_def map_of_insert_index map_add_def fun_eq_iff split: option.splits)

lemma put_absent:
  assumes "\<not> has_property k ob"
  shows "put k v ob =
     (if extensible ob
      then Inr (JSObject (oid ob)
             (insert_own k \<lparr>prop_value = v, enumerable = True, writable = True\<rparr> (own ob))
             (proto ob) True)
      else Inl TypeError)"
proof (cases ob)
  case (JSObject i ps pr ext)
  with assms have "map_of ps k = None"
    and "(case pr of None \<Rightarrow> None | Some q \<Rightarrow> find_property k q) = None"
    by (auto simp: has_property_def split: option.splits)
  with JSObject show ?thesis by simp
qed

lemma forEach_key_extensible:
  "extensible ob \<Longrightarrow>
   \<exists>r. forEach_key d ks ob = Inr r \<and> oid r = oid ob \<and> proto r = proto ob \<and> extensible r
     \<and> (\<forall>k. map_of (own r) k =
          (if k \<in> set ks \<and> \<not> has_property k ob then Some (default_property d k)
           else map_of (own ob) k))"
proof (induction ks arbitrary: ob)
  case Nil
  then show ?case by simp
next
  case (Cons key ks)
  show ?case
  proof (cases "has_property key ob")
    case True
    from Cons.IH [OF Cons.prems] obtain r where
      r: "forEach_key d ks ob = Inr r" "oid r = oid ob" "proto r = proto ob" "extensible r"
        "\<forall>k. map_of (own r) k =
          (if k \<in> set ks \<and> \<not> has_property k ob then Some (default_property d k)
           else map_of (own ob) k)"
      by blast
    from r(5) True have "\<forall>k. map_of (own r) k =
        (if k \<in> set (key # ks) \<and> \<not> has_property k ob then Some (default_property d k)
         else map_of (own ob) k)"
      by auto
    with r True show ?thesis by simp
  next
    case False
    let ?ob' = "JSObject (oid ob) (insert_own key (default_property d key) (own ob)) (proto ob) True"
    from False Cons.prems have p: "put key (get key d) ob = Inr ?ob'"
      by (simp add: put_absent default_property_def)
    from False have none: "map_of (own ob) key = None"
      by (cases ob) (simp add: has_property_cases)
    then have m: "map_of (own ?ob') = (map_of (own ob))(key \<mapsto> default_property d key)"
      by (simp add: map_of_insert_own)
    have hp: "has_property k ?ob' = (has_property k ob \<or> k = key)" for k
      using m by (cases ob) (auto simp: has_property_cases)
    have "extensible ?ob'" by simp
    from Cons.IH [OF this] obtain r where
      r: "forEach_key d ks ?ob' = Inr r" "oid r = oid ?ob'" "proto r = proto ?ob'" "extensible r"
        "\<forall>k. map_of (own r) k =
          (if k \<in> set ks \<and> \<not> has_property k ?ob' then Some (default_property d k)
           else map_of (own ?ob') k)"
      by blast
    have "map_of (own r) k =
        (if k \<in> set (key # ks) \<and> \<not> has_property k ob then Some (default_property d k)
         else map_of (own ob) k)" for k
    proof (cases "k = key")
      case True
      with r(5) False m show ?thesis by (simp add: hp)
    next
      case ne: False
      with r(5) m show ?thesis by (simp add: hp)
    qed
    with r False p show ?thesis by simp
  qed
qed

lemma forEach_key_not_extensible:
  "\<not> extensible ob \<Longrightarrow>
   forEach_key d ks ob = (if list_all (\<lambda>k. has_property k ob) ks then Inr ob else Inl TypeError)"
  by (induction ks) (simp_all add: put_absent)

text \<open>
  The example computed: the keys \<^verbatim>\<open>7\<close> and \<^verbatim>\<open>b\<close> are added, the array index before
  the existing key.
\<close>

lemma addDefaults_example:
  "addDefaults empty_object (Some example_target) example_defaults =
     Inr (JSObject 2
       [(''7'', \<lparr>prop_value = JNumber 70, enumerable = True, writable = True\<rparr>),
        (''a'', \<lparr>prop_value = JNumber 1, enumerable = True, writable = True\<rparr>),
        (''b'', \<lparr>prop_value = JNumber 2, enumerable = True, writable = True\<rparr>)]
       (Some object_prototype) True)"
  by (simp add: addDefaults_def example_target_def example_defaults_def object_prototype_def
      object_keys_def has_property_def get_def insert_own_def is_array_index_def is_digit_def
      index_value_def digit_value_def)

text \<open>
  Claim C2 as the specification words it fails on a target that is not extensible: the
  assignment of the first default that is absent from it throws, and nothing is added or
  returned.
\<close>

theorem addDefaults_frozen_target_throws:
  "\<not> has_property ''b'' frozen_target
   \<and> ''b'' \<in> set (object_keys example_defaults)
   \<and> addDefaults empty_object (Some frozen_target) example_defaults = Inl TypeError"
  by (simp add: addDefaults_def frozen_target_def example_defaults_def object_prototype_def
      object_keys_def has_property_def get_def)

text \<open>
  Claim C2, as the code has it. For an extensible target \<open>ob\<close> that is given, the call
  returns \<open>ob\<close> itself (same identity, same prototype). A key that is in \<open>ob\<close>, own or
  inherited, keeps its own entry and reads as before. A key that is not in \<open>ob\<close> becomes
  an own property exactly when it is an own enumerable key of the defaults, and then
  holds the defaults' value. A target that is not extensible is returned as it is when
  every own enumerable key of the defaults is in it; otherwise the call throws.
\<close>

theorem addDefaults_adds_absent_only:
  "(extensible ob \<longrightarrow>
      (\<exists>r. addDefaults fresh (Some ob) d = Inr r
         \<and> oid r = oid ob \<and> proto r = proto ob \<and> extensible r
         \<and> (\<forall>k. has_property k ob \<longrightarrow>
               map_of (own r) k = map_of (own ob) k \<and> get k r = get k ob)
         \<and> (\<forall>k. \<not> has_property k ob \<longrightarrow>
               map_of (own r) k
                 = (if k \<in> set (object_keys d)
                    then Some \<lparr>prop_value = get k d, enumerable = True, writable = True\<rparr>
                    else None))))
   \<and> (\<not> extensible ob \<longrightarrow>
        addDefaults fresh (Some ob) d
          = (if list_all (\<lambda>k. has_property k ob) (object_keys d) then Inr ob
             else Inl TypeError))"
proof -
  have ext: "\<exists>r. addDefaults fresh (Some ob) d = Inr r
         \<and> oid r = oid ob \<and> proto r = proto ob \<and> extensible r
         \<and> (\<forall>k. has_property k ob \<longrightarrow>
               map_of (own r) k = map_of (own ob) k \<and> get k r = get k ob)
         \<and> (\<forall>k. \<not> has_property k ob \<longrightarrow>
               map_of (own r) k
                 = (if k \<in> set (object_keys d)
                    then Some \<lparr>prop_value = get k d, enumerable = True, writable = True\<rparr>
                    else None))"
    if e: "extensible ob"
  proof -
    from forEach_key_extensible [OF e, of d "object_keys d"] obtain r where
      r: "forEach_key d (object_keys d) ob = Inr r" "oid r = oid ob" "proto r = proto ob"
        "extensible r"
      and m: "\<And>k. map_of (own r) k =
          (if k \<in> set (object_keys d) \<and> \<not> has_property k ob then Some (default_property d k)
           else map_of (own ob) k)"
      by blast
    have same: "map_of (own r) k = map_of (own ob) k \<and> get k r = get k ob"
      if "has_property k ob" for k
    proof -
      from m [of k] that have o: "map_of (own r) k = map_of (own ob) k" by simp
      with r(3) show ?thesis
        by (cases r; cases ob) (simp add: get_cases)
    qed
    have added: "map_of (own r) k
        = (if k \<in> set (object_keys d)
           then Some \<lparr>prop_value = get k d, enumerable = True, writable = True\<rparr> else None)"
      if "\<not> has_property k ob" for k
    proof -
      from that have "map_of (own ob) k = None"
        by (cases ob) (simp add: has_property_cases)
      with m [of k] that show ?thesis by (simp add: default_property_def)
    qed
    from r same added show ?thesis by (simp add: addDefaults_def)
  qed
  have frozen: "addDefaults fresh (Some ob) d
      = (if list_all (\<lambda>k. has_property k ob) (object_keys d) then Inr ob else Inl TypeError)"
    if "\<not> extensible ob"
    using that by (simp add: addDefaults_def forEach_key_not_extensible)
  from ext frozen show ?thesis by blast
qed

theorem addDefaults_adds_absent_only_witness:
  "extensible example_target
   \<and> has_property ''toString'' example_target
   \<and> has_property ''a'' example_target
   \<and> \<not> has_property ''b'' example_target
   \<and> \<not> has_property ''hidden'' example_target
   \<and> (\<exists>r. addDefaults empty_object (Some example_target) example_defaults = Inr r
         \<and> oid r = oid example_target
         \<and> get ''toString'' r = JPlainObject 100
         \<and> map_of (own r) ''toString'' = None
         \<and> get ''a'' r = JNumber 1
         \<and> map_of (own r) ''b''
             = Some \<lparr>prop_value = JNumber 2, enumerable = True, writable = True\<rparr>
         \<and> map_of (own r) ''hidden'' = None)
   \<and> \<not> extensible frozen_target
   \<and> addDefaults empty_object (Some frozen_target) example_defaults = Inl TypeError
   \<and> addDefaults empty_object (Some frozen_target) example_target = Inr frozen_target"
proof -
  have e: "extensible example_target" and f: "\<not> extensible frozen_target"
    by (simp_all add: example_target_def frozen_target_def)
  have p: "has_property ''toString'' example_target" "has_property ''a'' example_target"
    and q: "\<not> has_property ''b'' example_target" "\<not> has_property ''hidden'' example_target"
    by (simp_all add: example_target_def object_prototype_def has_property_def)
  have g: "get ''toString'' example_target = JPlainObject 100"
    "get ''a'' example_target = JNumber 1"
    "map_of (own example_target) ''toString'' = None"
    "get ''b'' example_defaults = JNumber 2"
    by (simp_all add: example_target_def example_defaults_def object_prototype_def get_def)
  have k: "''b'' \<in> set (object_keys example_defaults)"
    "''hidden'' \<notin> set (object_keys example_defaults)"
    by (simp_all add: example_defaults_def object_keys_def)
  have l: "\<not> list_all (\<lambda>k. has_property k frozen_target) (object_keys example_defaults)"
    "list_all (\<lambda>k. has_property k frozen_target) (object_keys example_target)"
    by (simp_all add: example_defaults_def example_target_def frozen_target_def
        object_prototype_def object_keys_def has_property_def)
  from addDefaults_adds_absent_only [of example_target empty_object example_defaults] e
  obtain r where r: "addDefaults empty_object (Some example_target) example_defaults = Inr r"
    "oid r = oid example_target"
    "\<And>k. has_property k example_target \<Longrightarrow>
       map_of (own r) k = map_of (own example_target) k \<and> get k r = get k example_target"
    "\<And>k. \<not> has_property k example_target \<Longrightarrow>
       map_of (own r) k
         = (if k \<in> set (object_keys example_defaults)
            then Some \<lparr>prop_value = get k example_defaults, enumerable = True, writable = True\<rparr>
            else None)"
    by blast
  from r(3) [OF p(1)] r(3) [OF p(2)] r(4) [OF q(1)] r(4) [OF q(2)] g k
  have "get ''toString'' r = JPlainObject 100" "map_of (own r) ''toString'' = None"
    "get ''a'' r = JNumber 1"
    "map_of (own r) ''b'' = Some \<lparr>prop_value = JNumber 2, enumerable = True, writable = True\<rparr>"
    "map_of (own r) ''hidden'' = None"
    by simp_all
  with r(1,2) have "\<exists>r. addDefaults empty_object (Some example_target) example_defaults = Inr r
         \<and> oid r = oid example_target
         \<and> get ''toString'' r = JPlainObject 100
         \<and> map_of (own r) ''toString'' = None
         \<and> get ''a'' r = JNumber 1
         \<and> map_of (own r) ''b''
             = Some \<lparr>prop_value = JNumber 2, enumerable = True, writable = True\<rparr>
         \<and> map_of (own r) ''hidden'' = None"
    by blast
  moreover from addDefaults_adds_absent_only [of frozen_target empty_object example_defaults] f l
  have "addDefaults empty_object (Some frozen_target) example_defaults = Inl TypeError"
    by simp
  moreover from addDefaults_adds_absent_only [of frozen_target empty_object example_target] f l
  have "addDefaults empty_object (Some frozen_target) example_target = Inr frozen_target"
    by simp
  ultimately show ?thesis using e f p q by blast
qed


section \<open>Properties of \<^verbatim>\<open>xhr\<close>\<close>

lemma xhr_opened: "opened (xhr js m u b f g) = Some (m, u, True)"
  by (simp add: xhr_def req_open_def req_send_def setRequestHeader_def new_XMLHttpRequest_def
      Let_def split: option.splits)

lemma xhr_sent:
  "sent (xhr js m u b f g) =
     Some (if truthy b then Some (if isString b then string_of b else js b) else None)"
  by (simp add: xhr_def req_open_def req_send_def setRequestHeader_def new_XMLHttpRequest_def
      Let_def split: option.splits)

lemma xhr_headers:
  "requestHeaders (xhr js m u b f g) =
     (if truthy b then [(''Content-Type'', ''application/json'')] else [])"
  by (simp add: xhr_def req_open_def req_send_def setRequestHeader_def new_XMLHttpRequest_def
      Let_def split: option.splits)

lemma xhr_empty_string_as_absent: "xhr js m u (JString []) f g = xhr js m u JUndefined f g"
  by (simp add: xhr_def)

text \<open>
  Claim C5, as the code has it. A plain object is sent as its JSON text with the JSON
  content type; a string that is not empty is sent as it is; \<^verbatim>\<open>undefined\<close> and
  \<^verbatim>\<open>null\<close> send no body; the returned request has been opened and sent.
\<close>

theorem xhr_body_dispatch:
  "sent (xhr js m u (JPlainObject ob) f g) = Some (Some (js (JPlainObject ob)))
   \<and> requestHeaders (xhr js m u (JPlainObject ob) f g) = [(''Content-Type'', ''application/json'')]
   \<and> sent (xhr js m u (JString (c # cs)) f g) = Some (Some (c # cs))
   \<and> sent (xhr js m u (JStringObject str) f g) = Some (Some str)
   \<and> sent (xhr js m u JUndefined f g) = Some None
   \<and> sent (xhr js m u JNull f g) = Some None
   \<and> in_flight m u (xhr js m u b f g)"
  by (simp add: xhr_sent xhr_headers xhr_opened in_flight_def isString_def isNullOrUndefined_def)

text \<open>
  The claim as the specification words it, "given a string body, sends it verbatim",
  fails at the empty string: the request is sent with no body at all.
\<close>

theorem xhr_empty_string_not_verbatim:
  "sent (xhr (\<lambda>v. ''{}'') ''POST'' ''/api'' (JString []) (0::nat) None) \<noteq> Some (Some [])"
  by (simp add: xhr_sent)

text \<open>
  Claim C9. The dispatch is on the truthiness of the body: the empty string sends no
  body and sets no header, as an absent body does; every string that is not empty is
  sent as it is and still gets the JSON content type.
\<close>

theorem xhr_truthiness_dispatch:
  "sent (xhr js m u (JString []) f g) = Some None
   \<and> requestHeaders (xhr js m u (JString []) f g) = []
   \<and> xhr js m u (JString []) f g = xhr js m u JUndefined f g
   \<and> requestHeaders (xhr js m u (JString (c # cs)) f g)
       = [(''Content-Type'', ''application/json'')]
   \<and> sent (xhr js m u (JString (c # cs)) f g) = Some (Some (c # cs))"
  by (simp add: xhr_sent xhr_headers xhr_empty_string_as_absent isString_def
      isNullOrUndefined_def)


section \<open>Properties of \<^verbatim>\<open>noConflict\<close>\<close>

text \<open>
  Claim C8. \<^verbatim>\<open>noConflict\<close> returns the value bound to \<^verbatim>\<open>window.\<Omega>\<close> at the time of
  the call and binds \<^verbatim>\<open>window.\<Omega>\<close> to the value saved when the script was loaded.
  After loading, the returned value is the library instance, and the global binding is
  again what it was before the script was loaded.
\<close>

theorem noConflict_restores:
  "fst (noConflict s) = window_Omega s
   \<and> window_Omega (snd (noConflict s)) = oldOmega s
   \<and> fst (noConflict (load_library previous instance)) = instance
   \<and> window_Omega (snd (noConflict (load_library previous instance))) = previous"
  by (simp add: noConflict_def load_library_def Let_def)

end
